theory Spec2Isabelle
  imports Main
begin

section \<open>HTTP client wrapper: the retry policy of \<open>src/client.ts\<close>\<close>

text \<open>
  JavaScript numbers are modelled as integers (\<open>int\<close>): delays, status codes and the
  retry bound are whole numbers in every configuration the claims speak about. The
  private counter \<open>__retryCount\<close> is only ever written by \<open>retryRequest\<close>, as
  \<open>(count || 0) + 1\<close>, so it is a natural number or absent.

  An optional property of a caller-supplied object literal has three states in
  JavaScript: the key is missing, the key is present with value \<open>undefined\<close>, or it
  holds a value. The object spread of the constructor copies the second state over the
  default, which is why the three are kept apart.
\<close>

datatype 'a optional = Missing | Undefined | Val 'a

record RetryOptionsArg =
  arg_maxRetries :: "int optional"
  arg_baseDelay :: "int optional"
  arg_maxDelay :: "int optional"
  arg_exponentialBase :: "int optional"

record RetryOptions =
  maxRetries :: "int option"
  baseDelay :: "int option"
  maxDelay :: "int option"
  exponentialBase :: "int option"

record SDKConfig =
  apiBaseUrl :: string
  apiKey :: "string option"
  retryOptions :: "RetryOptionsArg option"

text \<open>\<open>{ key: d, ...arg }\<close> for one key: the default survives only when the key is missing.\<close>

fun spread :: "'a \<Rightarrow> 'a optional \<Rightarrow> 'a option" where
  "spread d Missing = Some d"
| "spread d Undefined = None"
| "spread d (Val v) = Some v"

text \<open>The constructor's \<open>this.retryOptions = { maxRetries: 3, baseDelay: 1000,
  maxDelay: 30000, exponentialBase: 2, ...config.retryOptions }\<close>.\<close>

definition APIClient_retryOptions :: "SDKConfig \<Rightarrow> RetryOptions" where
  "APIClient_retryOptions cfg =
     (case retryOptions cfg of
        None \<Rightarrow> \<lparr>maxRetries = Some 3, baseDelay = Some 1000,
                 maxDelay = Some 30000, exponentialBase = Some 2\<rparr>
      | Some r \<Rightarrow> \<lparr>maxRetries = spread 3 (arg_maxRetries r),
                   baseDelay = spread 1000 (arg_baseDelay r),
                   maxDelay = spread 30000 (arg_maxDelay r),
                   exponentialBase = spread 2 (arg_exponentialBase r)\<rparr>)"

text \<open>The nullish coalescing operator \<open>x ?? d\<close>.\<close>

fun nullish :: "'a option \<Rightarrow> 'a \<Rightarrow> 'a" where
  "nullish None d = d"
| "nullish (Some v) d = v"

text \<open>
  A request config carries an opaque payload (method, url, params, body) and the private
  counter. An Axios error carries the config of the request that failed, an error code and,
  when the server answered, the response. Any other thrown value is \<open>NotAxiosError\<close>:
  \<open>axios.isAxiosError\<close> is the constructor test.
\<close>

record 'a AxiosRequestConfig =
  payload :: "'a option"
  retryCount :: "nat option"

record AxiosResponse =
  status :: int
  data :: string

record 'a AxiosError =
  config :: "'a AxiosRequestConfig option"
  code :: "string option"
  response :: "AxiosResponse option"

datatype 'a thrown = IsAxiosError "'a AxiosError" | NotAxiosError string

text \<open>\<open>APIClient.shouldRetry\<close>, branch by branch.\<close>

fun shouldRetry :: "RetryOptions \<Rightarrow> 'a thrown \<Rightarrow> bool" where
  "shouldRetry opts (NotAxiosError msg) = False"
| "shouldRetry opts (IsAxiosError axiosErr) =
     (case config axiosErr of
        None \<Rightarrow> False
      | Some c \<Rightarrow>
          if int (nullish (retryCount c) 0) \<ge> nullish (maxRetries opts) 0 then False
          else (case response axiosErr of
                  None \<Rightarrow> True
                | Some r \<Rightarrow>
                    code axiosErr = Some ''ECONNABORTED''
                    \<or> (status r \<ge> 500 \<and> status r < 600)
                    \<or> status r = 429))"

text \<open>
  \<open>APIClient.retryRequest\<close>, up to the sleep, in its two steps: the config is the error's
  (or \<open>{}\<close>) and its counter becomes \<open>(count || 0) + 1\<close>; the delay is
  \<open>Math.min(baseDelay * Math.pow(exponentialBase, (count || 1) - 1), maxDelay)\<close>. The
  function yields the config to reissue and the delay to sleep first.
\<close>

definition empty_config :: "'a AxiosRequestConfig" where
  "empty_config = \<lparr>payload = None, retryCount = None\<rparr>"

definition bump_retryCount :: "'a AxiosError \<Rightarrow> 'a AxiosRequestConfig" where
  "bump_retryCount err =
     (let c = (case config err of Some c \<Rightarrow> c | None \<Rightarrow> empty_config)
      in c\<lparr>retryCount := Some (nullish (retryCount c) 0 + 1)\<rparr>)"

definition retry_delay :: "RetryOptions \<Rightarrow> 'a AxiosRequestConfig \<Rightarrow> int" where
  "retry_delay opts c =
     (let k = nullish (retryCount c) 0
      in min (nullish (baseDelay opts) 1000
                * nullish (exponentialBase opts) 2 ^ ((if k = 0 then 1 else k) - 1))
             (nullish (maxDelay opts) 30000))"

definition retryRequest :: "RetryOptions \<Rightarrow> 'a AxiosError \<Rightarrow> 'a AxiosRequestConfig \<times> int" where
  "retryRequest opts err =
     (let c = bump_retryCount err; delay = retry_delay opts c in (c, delay))"

text \<open>
  The transport is everything below the response interceptor: attempt number \<open>n\<close>
  (counted from 0) is fulfilled with a response, rejected with an Axios error (code, and
  response when the server answered with a status outside 2xx), or rejected with some other
  thrown value. Axios attaches the config of the request to its own errors, and a config
  handed back to the instance keeps the private counter.
\<close>

datatype outcome =
    Fulfilled AxiosResponse
  | AxiosRejected "string option" "AxiosResponse option"
  | OtherRejected string

record 'a settled =
  final :: "'a thrown + AxiosResponse"
  sleeps :: "int list"

text \<open>
  One call through the Axios instance with its response interceptor: a fulfilled attempt is
  returned; a rejected one is retried by \<open>retryRequest\<close> when \<open>shouldRetry\<close> says so
  (sleep, then the same instance is called with the updated config, so the interceptor
  applies again), and rejected to the caller otherwise. A thrown value that is not an
  Axios error is rejected at once: \<open>shouldRetry\<close> is \<open>False\<close> on it by its first
  line. \<open>slept\<close> accumulates the delays passed to \<open>setTimeout\<close>, in order.
\<close>

function client_call ::
  "RetryOptions \<Rightarrow> (nat \<Rightarrow> outcome) \<Rightarrow> nat \<Rightarrow> 'a AxiosRequestConfig \<Rightarrow> int list \<Rightarrow> 'a settled"
where
  "client_call opts transport n c slept =
     (case transport n of
        Fulfilled r \<Rightarrow> \<lparr>final = Inr r, sleeps = slept\<rparr>
      | OtherRejected msg \<Rightarrow> \<lparr>final = Inl (NotAxiosError msg), sleeps = slept\<rparr>
      | AxiosRejected cd resp \<Rightarrow>
          (let err = \<lparr>config = Some c, code = cd, response = resp\<rparr> in
           if shouldRetry opts (IsAxiosError err)
           then (case retryRequest opts err of
                   (c', delay) \<Rightarrow> client_call opts transport (Suc n) c' (slept @ [delay]))
           else \<lparr>final = Inl (IsAxiosError err), sleeps = slept\<rparr>))"
  by pat_completeness auto
termination
  by (relation "measure (\<lambda>(opts, transport, n, c, slept).
          nat (nullish (maxRetries opts) 0) - nullish (retryCount c) 0)")
     (auto simp: retryRequest_def bump_retryCount_def Let_def split: if_splits)

text \<open>The public methods start from a config without the private counter.\<close>

definition fresh_config :: "'a \<Rightarrow> 'a AxiosRequestConfig" where
  "fresh_config p = \<lparr>payload = Some p, retryCount = None\<rparr>"

definition client_request :: "RetryOptions \<Rightarrow> (nat \<Rightarrow> outcome) \<Rightarrow> 'a \<Rightarrow> 'a settled" where
  "client_request opts transport p = client_call opts transport 0 (fresh_config p) []"

subsection \<open>Sample configurations and transports\<close>

text \<open>A configuration without retry options; the configuration of \<open>test/sdk.test.ts\<close>,
  which sets two of the four options; and one that sets only the base delay.\<close>

definition default_config :: SDKConfig where
  "default_config = \<lparr>apiBaseUrl = ''https://api.test.com'', apiKey = None, retryOptions = None\<rparr>"




definition three_503_then_200 :: "nat \<Rightarrow> outcome" where
  "three_503_then_200 n =
     (if n < 3 then AxiosRejected (Some ''ERR_BAD_RESPONSE'') (Some \<lparr>status = 503, data = ''Service Unavailable''\<rparr>)
      else Fulfilled \<lparr>status = 200, data = ''ok''\<rparr>)"

section \<open>Security utilities: \<open>sanitizeEventData\<close>, \<open>redactSensitiveData\<close>, \<open>RateLimiter\<close>\<close>

text \<open>
  A \<open>Record<string, unknown>\<close> is modelled by what \<open>Object.entries\<close> yields for it: the
  list of its own enumerable string-keyed properties, in property order. Strings are byte
  strings (UTF-8): the bytes \<open>0x00-0x1F\<close> and \<open>0x7F\<close> occur in UTF-8 only as the code
  points of the same number, so the regular expression \<open>/[\x00-\x1F\x7F]/g\<close> acts on them
  byte by byte. Numbers are opaque to both functions and modelled as integers.
\<close>

datatype jsvalue =
    JUndefined
  | JNull
  | JBool bool
  | JNumber int
  | JString string
  | JArray "jsvalue list"
  | JObject "(string \<times> jsvalue) list"

text \<open>
  The assignment \<open>target[key] = value\<close> on an object that started as \<open>{}\<close>: an existing
  own property keeps its place and gets the new value, a new key is appended, and the key
  \<open>__proto__\<close> hits the inherited accessor of \<open>Object.prototype\<close>, which creates no own
  property (it sets the prototype when the value is an object or \<open>null\<close>, and does nothing
  otherwise).
\<close>

fun put :: "(string \<times> jsvalue) list \<Rightarrow> string \<Rightarrow> jsvalue \<Rightarrow> (string \<times> jsvalue) list" where
  "put [] key v = [(key, v)]"
| "put ((k, w) # rest) key v = (if k = key then (k, v) # rest else (k, w) # put rest key v)"

definition set_property ::
  "(string \<times> jsvalue) list \<Rightarrow> string \<Rightarrow> jsvalue \<Rightarrow> (string \<times> jsvalue) list" where
  "set_property target key v = (if key = ''__proto__'' then target else put target key v)"

text \<open>The loop shape both functions share: every entry is stored under its key, after a
  function of key and value. It is used to reason about the two loops at once.\<close>

fun store_all ::
  "(string \<Rightarrow> jsvalue \<Rightarrow> jsvalue) \<Rightarrow> (string \<times> jsvalue) list \<Rightarrow> (string \<times> jsvalue) list
     \<Rightarrow> (string \<times> jsvalue) list" where
  "store_all f target [] = target"
| "store_all f target ((key, v) # rest) = store_all f (set_property target key (f key v)) rest"

text \<open>\<open>value.replace(/[\x00-\x1F\x7F]/g, '')\<close>.\<close>

definition is_control :: "char \<Rightarrow> bool" where
  "is_control c = ((of_char c :: nat) \<le> 31 \<or> (of_char c :: nat) = 127)"

definition strip_control :: "string \<Rightarrow> string" where
  "strip_control s = filter (\<lambda>c. \<not> is_control c) s"

text \<open>
  \<open>sanitizeEventData\<close>: the loop over \<open>Object.entries(data)\<close>, with the object under
  construction as accumulator. A string is stripped, a non-null object that is not an array
  is sanitized recursively, anything else (arrays included) is stored as it is.
\<close>

fun sanitize_into ::
  "(string \<times> jsvalue) list \<Rightarrow> (string \<times> jsvalue) list \<Rightarrow> (string \<times> jsvalue) list" where
  "sanitize_into sanitized [] = sanitized"
| "sanitize_into sanitized ((key, v) # rest) =
     sanitize_into
       (set_property sanitized key
          (case v of
             JString s \<Rightarrow> JString (strip_control s)
           | JObject entries \<Rightarrow> JObject (sanitize_into [] entries)
           | _ \<Rightarrow> v))
       rest"

definition sanitizeEventData :: "(string \<times> jsvalue) list \<Rightarrow> (string \<times> jsvalue) list" where
  "sanitizeEventData d = sanitize_into [] d"

text \<open>What the loop body stores for one value.\<close>

definition sanitize_value :: "jsvalue \<Rightarrow> jsvalue" where
  "sanitize_value v =
     (case v of
        JString s \<Rightarrow> JString (strip_control s)
      | JObject entries \<Rightarrow> JObject (sanitizeEventData entries)
      | _ \<Rightarrow> v)"

text \<open>The string values of a record at every depth of plain-object nesting (arrays are
  not entered), and the string values at every depth, arrays included.\<close>

fun object_strings :: "(string \<times> jsvalue) list \<Rightarrow> string list" where
  "object_strings [] = []"
| "object_strings ((key, v) # rest) =
     (case v of
        JString s \<Rightarrow> [s]
      | JObject entries \<Rightarrow> object_strings entries
      | _ \<Rightarrow> []) @ object_strings rest"

fun all_strings :: "jsvalue \<Rightarrow> string list" where
  "all_strings (JString s) = [s]"
| "all_strings (JArray xs) = concat (map all_strings xs)"
| "all_strings (JObject entries) = concat (map (\<lambda>(k, v). all_strings v) entries)"
| "all_strings v = []"

text \<open>
  \<open>String.prototype.toLowerCase\<close> on the ASCII letters, and \<open>String.prototype.includes\<close>.
  (JavaScript also lowers letters outside ASCII; of those only U+212A and U+0130 lower to
  an ASCII letter. Keys are taken to be free of them.)
\<close>

definition lower_char :: "char \<Rightarrow> char" where
  "lower_char c =
     (case map_of (zip ''ABCDEFGHIJKLMNOPQRSTUVWXYZ'' ''abcdefghijklmnopqrstuvwxyz'') c of
        Some l \<Rightarrow> l
      | None \<Rightarrow> c)"

definition toLowerCase :: "string \<Rightarrow> string" where
  "toLowerCase s = map lower_char s"

definition startsWith :: "string \<Rightarrow> string \<Rightarrow> bool" where
  "startsWith s sub = (take (length sub) s = sub)"

primrec str_includes :: "string \<Rightarrow> string \<Rightarrow> bool" where
  "str_includes [] sub = (sub = [])"
| "str_includes (c # cs) sub = (startsWith (c # cs) sub \<or> str_includes cs sub)"

definition sensitiveKeys :: "string list" where
  "sensitiveKeys =
     [''apiKey'', ''api_key'', ''apikey'',
      ''privateKey'', ''private_key'', ''privatekey'',
      ''operatorKey'', ''operator_key'',
      ''password'', ''secret'', ''token'',
      ''authorization'', ''auth'']"

definition isSensitive :: "string \<Rightarrow> bool" where
  "isSensitive key = list_ex (\<lambda>sk. str_includes (toLowerCase key) sk) sensitiveKeys"

text \<open>\<open>redactSensitiveData\<close>, the same loop shape.\<close>

fun redact_into ::
  "(string \<times> jsvalue) list \<Rightarrow> (string \<times> jsvalue) list \<Rightarrow> (string \<times> jsvalue) list" where
  "redact_into redacted [] = redacted"
| "redact_into redacted ((key, v) # rest) =
     redact_into
       (set_property redacted key
          (if isSensitive key then JString ''[REDACTED]''
           else (case v of
                   JObject entries \<Rightarrow> JObject (redact_into [] entries)
                 | _ \<Rightarrow> v)))
       rest"

definition redactSensitiveData :: "(string \<times> jsvalue) list \<Rightarrow> (string \<times> jsvalue) list" where
  "redactSensitiveData obj = redact_into [] obj"

text \<open>What the loop body stores for one entry.\<close>

definition redact_value :: "string \<Rightarrow> jsvalue \<Rightarrow> jsvalue" where
  "redact_value key v =
     (if isSensitive key then JString ''[REDACTED]''
      else (case v of
              JObject entries \<Rightarrow> JObject (redactSensitiveData entries)
            | _ \<Rightarrow> v))"

text \<open>
  The specification's wording of the sensitive keys, for comparison with \<open>isSensitive\<close>:
  a key is sensitive when it contains, ignoring case, one of the eight listed names.
\<close>

definition spec_sensitive_names :: "string list" where
  "spec_sensitive_names =
     [''apiKey'', ''privateKey'', ''operatorKey'', ''password'', ''secret'', ''token'',
      ''authorization'', ''auth'']"

definition spec_isSensitive :: "string \<Rightarrow> bool" where
  "spec_isSensitive key =
     list_ex (\<lambda>name. str_includes (toLowerCase key) (toLowerCase name)) spec_sensitive_names"

text \<open>The example records of \<open>docs/SECURITY_FIXES.md\<close>, and small records that put a
  string inside an array and use a snake-case key.\<close>

definition docs_event_data :: "(string \<times> jsvalue) list" where
  "docs_event_data =
     [(''userId'', JString (''123'' @ [CHR 0x00])),
      (''name'', JString (''Test'' @ [CHR 0x0A, CHR 0x0D]))]"

definition tagged_event_data :: "(string \<times> jsvalue) list" where
  "tagged_event_data = [(''tags'', JArray [JString (''a'' @ [CHR 0x00])])]"

definition docs_log_data :: "(string \<times> jsvalue) list" where
  "docs_log_data =
     [(''apiKey'', JString ''secret123''),
      (''operatorKey'', JString ''private''),
      (''userId'', JString ''123'')]"

definition snake_case_log_data :: "(string \<times> jsvalue) list" where
  "snake_case_log_data = [(''api_key'', JString ''secret123'')]"

subsection \<open>\<open>RateLimiter\<close>\<close>

text \<open>
  Timestamps are the integers \<open>Date.now()\<close> returns. The limiter's only suspension is
  \<open>await new Promise(resolve => setTimeout(resolve, waitTime))\<close>; \<open>timer now d\<close> is the time
  at which a timer set at \<open>now\<close> for \<open>d\<close> milliseconds fires. \<open>acquire\<close> takes the
  current time and returns the limiter and the time at which the promise resolves; a call
  that never resolves is \<open>None\<close>.
\<close>

record RateLimiter =
  maxRequests :: int
  windowMs :: int
  requests :: "int list"

definition RateLimiter_new :: "int \<Rightarrow> int \<Rightarrow> RateLimiter" where
  "RateLimiter_new m w = \<lparr>maxRequests = m, windowMs = w, requests = []\<rparr>"

text \<open>\<open>this.requests.filter(time => now - time < this.windowMs)\<close>.\<close>

definition prune :: "RateLimiter \<Rightarrow> int \<Rightarrow> int list" where
  "prune rl now = filter (\<lambda>time. now - time < windowMs rl) (requests rl)"

text \<open>
  When the window is full the oldest kept grant is \<open>this.requests[0]\<close>. With an empty
  window (possible only for \<open>maxRequests \<le> 0\<close>) the read is \<open>undefined\<close>, the wait is
  \<open>NaN\<close>, and the timer is set for no delay.
\<close>

partial_function (option) acquire ::
  "(int \<Rightarrow> int \<Rightarrow> int) \<Rightarrow> RateLimiter \<Rightarrow> int \<Rightarrow> (RateLimiter \<times> int) option"
where
  "acquire timer rl now =
     (let kept = prune rl now in
      if int (length kept) \<ge> maxRequests rl
      then (case kept of
              [] \<Rightarrow> acquire timer (rl\<lparr>requests := kept\<rparr>) (timer now 0)
            | oldestRequest # others \<Rightarrow>
                acquire timer (rl\<lparr>requests := kept\<rparr>)
                  (timer now (windowMs rl - (now - oldestRequest))))
      else Some (rl\<lparr>requests := kept @ [now]\<rparr>, now))"

declare acquire.simps [code]

definition reset :: "RateLimiter \<Rightarrow> RateLimiter" where
  "reset rl = rl\<lparr>requests := []\<rparr>"

text \<open>
  Sequential calls by one caller: before each call the caller spends some time of its own
  (\<open>gap\<close>, possibly none), then awaits \<open>acquire\<close>.
\<close>

fun acquire_seq ::
  "(int \<Rightarrow> int \<Rightarrow> int) \<Rightarrow> nat list \<Rightarrow> RateLimiter \<Rightarrow> int \<Rightarrow> (RateLimiter \<times> int) option"
where
  "acquire_seq timer [] rl now = Some (rl, now)"
| "acquire_seq timer (gap # gaps) rl now =
     (case acquire timer rl (now + int gap) of
        None \<Rightarrow> None
      | Some (rl', now') \<Rightarrow> acquire_seq timer gaps rl' now')"

text \<open>Two assumptions on timers: a timer never fires before it was set (\<open>steady\<close>, the
  clock does not run backwards), and a timer never fires early (\<open>punctual\<close>). The exact
  timer fires on time.\<close>

definition steady :: "(int \<Rightarrow> int \<Rightarrow> int) \<Rightarrow> bool" where
  "steady timer = (\<forall>now d. now \<le> timer now (max 0 d))"

definition punctual :: "(int \<Rightarrow> int \<Rightarrow> int) \<Rightarrow> bool" where
  "punctual timer = (\<forall>now d. now + d \<le> timer now d)"

definition exact_timer :: "int \<Rightarrow> int \<Rightarrow> int" where
  "exact_timer now d = now + max 0 d"

section \<open>Wallet adapters and the wallet manager\<close>

text \<open>
  Thrown errors are values carrying their message. The browser environment is explicit
  state: whether \<open>window\<close> exists, the \<open>localStorage\<close> slots, the object injected as
  \<open>window.hashpack\<close>, the \<open>provider\<close> field of a \<open>WalletConnectAdapter\<close>, and whatever
  state an adapter supplied by the caller keeps (\<open>custom\<close>). A promise is the pair of its
  outcome (\<open>Inl\<close> rejected, \<open>Inr\<close> resolved) and the environment it leaves.

  The injected wallet object is described by what its members do when called: the
  connect-style method that \<open>probeConnectMethod\<close> discovers (absent when no callable member
  is found), \<open>disconnect\<close> and \<open>requestTransaction\<close>. Polling in \<open>waitForHashPack\<close> is
  reduced to its result: the object when it is present, \<open>null\<close> otherwise.
\<close>

datatype error = Error string

type_synonym bytes = "nat list"

record HashPackConnectResult =
  accountIds :: "string list option"
  result_network :: "string option"
  result_publicKey :: "string option"

record hashpack_object =
  hp_connect :: "(error + HashPackConnectResult) option"
  hp_disconnect :: "(error + unit) option"
  hp_requestTransaction :: "(bytes \<Rightarrow> error + bytes) option"

text \<open>The pairing provider: \<open>connect\<close> rejects or resolves with a session, of which only
  \<open>session.namespaces.hedera.accounts\<close> is read (\<open>None\<close> when it is not an array).\<close>

record pairing_provider =
  wc_connect :: "error + string list option"
  wc_disconnect :: "(error + unit) option"

record 'x world =
  windowDefined :: bool
  localStorage :: "string \<Rightarrow> string option"
  window_hashpack :: "hashpack_object option"
  wc_provider :: "pairing_provider option"
  custom :: 'x

definition STORAGE_KEY :: string where
  "STORAGE_KEY = ''hedera_wallet_connection''"

definition setItem :: "string \<Rightarrow> string \<Rightarrow> 'x world \<Rightarrow> 'x world" where
  "setItem k v w = w\<lparr>localStorage := (localStorage w)(k \<mapsto> v)\<rparr>"

definition removeItem :: "string \<Rightarrow> 'x world \<Rightarrow> 'x world" where
  "removeItem k w = w\<lparr>localStorage := (localStorage w)(k := None)\<rparr>"

subsection \<open>\<open>HashConnectAdapter\<close>\<close>

definition HashConnectAdapter_isAvailable :: "'x world \<Rightarrow> bool" where
  "HashConnectAdapter_isAvailable w = (windowDefined w \<and> window_hashpack w \<noteq> None)"

definition waitForHashPack :: "'x world \<Rightarrow> hashpack_object option" where
  "waitForHashPack w = (if \<not> windowDefined w then None else window_hashpack w)"

text \<open>\<open>result.network || 'testnet'\<close>: a missing or empty network defaults.\<close>

fun or_testnet :: "string option \<Rightarrow> string" where
  "or_testnet None = ''testnet''"
| "or_testnet (Some n) = (if n = [] then ''testnet'' else n)"

fun optional_string :: "string option \<Rightarrow> jsvalue" where
  "optional_string None = JUndefined"
| "optional_string (Some s) = JString s"

definition HashConnectAdapter_connect ::
  "(jsvalue \<Rightarrow> string) \<Rightarrow> 'x world \<Rightarrow> (error + jsvalue) \<times> 'x world" where
  "HashConnectAdapter_connect stringify w =
     (case waitForHashPack w of
        None \<Rightarrow> (Inl (Error ''HashPack wallet not available (no injection detected)''), w)
      | Some hp \<Rightarrow>
          (case hp_connect hp of
             None \<Rightarrow> (Inl (Error ''HashPack connect API not available on window.hashpack''), w)
           | Some (Inl e) \<Rightarrow> (Inl e, w)
           | Some (Inr result) \<Rightarrow>
               (case accountIds result of
                  None \<Rightarrow> (Inl (Error ''No accounts returned by HashPack''), w)
                | Some [] \<Rightarrow> (Inl (Error ''No accounts returned by HashPack''), w)
                | Some (first # others) \<Rightarrow>
                    (let info = JObject
                           [(''accountId'', JString first),
                            (''network'', JString (or_testnet (result_network result))),
                            (''publicKey'', optional_string (result_publicKey result))]
                     in (Inr info,
                         if windowDefined w then setItem STORAGE_KEY (stringify info) w
                         else w)))))"

text \<open>\<open>disconnect\<close>: the call of the provider's \<open>disconnect\<close> sits in \<open>try { } catch { }\<close>,
  so neither its absence nor what it throws reaches the result.\<close>

definition HashConnectAdapter_disconnect :: "'x world \<Rightarrow> (error + unit) \<times> 'x world" where
  "HashConnectAdapter_disconnect w =
     (Inr (), if windowDefined w then removeItem STORAGE_KEY w else w)"

definition HashConnectAdapter_requestTransaction ::
  "bytes \<Rightarrow> 'x world \<Rightarrow> (error + bytes) \<times> 'x world" where
  "HashConnectAdapter_requestTransaction transaction w =
     (if \<not> HashConnectAdapter_isAvailable w then (Inl (Error ''HashPack wallet not available''), w)
      else (case window_hashpack w of
              None \<Rightarrow> (Inl (Error ''HashPack wallet not available''), w)
            | Some hp \<Rightarrow>
                (case hp_requestTransaction hp of
                   None \<Rightarrow> (Inl (Error ''HashPack requestTransaction not available''), w)
                 | Some requestTransaction \<Rightarrow> (requestTransaction transaction, w))))"

subsection \<open>\<open>WalletConnectAdapter\<close>\<close>

text \<open>\<open>String.prototype.split\<close> with a one-character separator.\<close>

fun split_on :: "char \<Rightarrow> string \<Rightarrow> string list" where
  "split_on sep [] = [[]]"
| "split_on sep (c # cs) =
     (if c = sep then [] # split_on sep cs
      else (case split_on sep cs of
              [] \<Rightarrow> [[c]]
            | part # parts \<Rightarrow> (c # part) # parts))"

text \<open>\<open>parts[i]\<close>: \<open>undefined\<close> past the end.\<close>

definition part_at :: "string list \<Rightarrow> nat \<Rightarrow> string option" where
  "part_at parts i = (if i < length parts then Some (parts ! i) else None)"

definition WalletConnectAdapter_isAvailable :: "'x world \<Rightarrow> bool" where
  "WalletConnectAdapter_isAvailable w = (wc_provider w \<noteq> None)"

text \<open>\<open>Array.isArray(accounts) && accounts.length ? accounts[0] : null\<close>, then
  \<open>if (!accountStr) throw\<close>: an empty first account counts as none.\<close>

fun first_account :: "string list option \<Rightarrow> string option" where
  "first_account (Some (a # others)) = (if a = [] then None else Some a)"
| "first_account accounts = None"

definition WalletConnectAdapter_connect ::
  "(jsvalue \<Rightarrow> string) \<Rightarrow> 'x world \<Rightarrow> (error + jsvalue) \<times> 'x world" where
  "WalletConnectAdapter_connect stringify w =
     (case wc_provider w of
        None \<Rightarrow> (Inl (Error ''WalletConnect provider not initialized''), w)
      | Some provider \<Rightarrow>
          (case wc_connect provider of
             Inl e \<Rightarrow> (Inl e, w)
           | Inr accounts \<Rightarrow>
               (case first_account accounts of
                  None \<Rightarrow> (Inl (Error ''No Hedera account returned from WalletConnect session''), w)
                | Some accountStr \<Rightarrow>
                    (let parts = split_on CHR '':'' accountStr;
                         network = (if part_at parts 1 = Some ''mainnet'' then ''mainnet''
                                    else ''testnet'');
                         accountId = part_at parts 2;
                         info = JObject
                           [(''accountId'', optional_string accountId),
                            (''network'', JString network)]
                     in (Inr info,
                         if windowDefined w then setItem STORAGE_KEY (stringify info) w
                         else w)))))"

definition WalletConnectAdapter_disconnect :: "'x world \<Rightarrow> (error + unit) \<times> 'x world" where
  "WalletConnectAdapter_disconnect w =
     (let w' = w\<lparr>wc_provider := None\<rparr>
      in (Inr (), if windowDefined w' then removeItem STORAGE_KEY w' else w'))"

subsection \<open>\<open>WalletManager\<close>\<close>

text \<open>
  The adapter interface, as a record of its methods. The manager keeps the connection
  record (\<open>JNull\<close> for \<open>null\<close>) and its adapter; \<open>invoked\<close> is a ghost field that lists, in
  order, the adapter methods the manager has called, so that "without invoking" can be
  stated.
\<close>

record 'x WalletAdapter =
  adapter_init :: "('x world \<Rightarrow> (error + unit) \<times> 'x world) option"
  adapter_isAvailable :: "'x world \<Rightarrow> bool"
  adapter_connect :: "'x world \<Rightarrow> (error + jsvalue) \<times> 'x world"
  adapter_disconnect :: "'x world \<Rightarrow> (error + unit) \<times> 'x world"
  adapter_requestTransaction :: "bytes \<Rightarrow> 'x world \<Rightarrow> (error + bytes) \<times> 'x world"

record 'x WalletManager =
  connectionInfo :: jsvalue
  adapter :: "'x WalletAdapter"
  invoked :: "string list"

definition note_call :: "string \<Rightarrow> 'x WalletManager \<Rightarrow> 'x WalletManager" where
  "note_call name m = m\<lparr>invoked := invoked m @ [name]\<rparr>"

text \<open>The constructor with an explicit adapter, and the stub it installs when there is
  neither an adapter nor a \<open>WALLETCONNECT_PROJECT_ID\<close>.\<close>

definition WalletManager_new :: "'x WalletAdapter \<Rightarrow> 'x WalletManager" where
  "WalletManager_new a = \<lparr>connectionInfo = JNull, adapter = a, invoked = []\<rparr>"

definition stub_adapter :: "'x WalletAdapter" where
  "stub_adapter =
     \<lparr>adapter_init = None,
      adapter_isAvailable = (\<lambda>w. False),
      adapter_connect = (\<lambda>w. (Inl (Error ''No wallet adapter configured''), w)),
      adapter_disconnect = (\<lambda>w. (Inr (), w)),
      adapter_requestTransaction = (\<lambda>transaction w. (Inl (Error ''No wallet adapter configured''), w))\<rparr>"

definition HashConnectAdapter :: "(jsvalue \<Rightarrow> string) \<Rightarrow> 'x WalletAdapter" where
  "HashConnectAdapter stringify =
     \<lparr>adapter_init = Some (\<lambda>w. (Inr (), w)),
      adapter_isAvailable = HashConnectAdapter_isAvailable,
      adapter_connect = HashConnectAdapter_connect stringify,
      adapter_disconnect = HashConnectAdapter_disconnect,
      adapter_requestTransaction = HashConnectAdapter_requestTransaction\<rparr>"

definition isConnected :: "'x WalletManager \<Rightarrow> bool" where
  "isConnected m = (connectionInfo m \<noteq> JNull)"

definition getConnectionInfo :: "'x WalletManager \<Rightarrow> jsvalue" where
  "getConnectionInfo m = connectionInfo m"

text \<open>\<open>restoreConnection\<close>; \<open>parse\<close> is \<open>JSON.parse\<close>, \<open>None\<close> when it throws. A missing
  slot and an empty string are both falsy.\<close>

definition restoreConnection ::
  "(string \<Rightarrow> jsvalue option) \<Rightarrow> 'x WalletManager \<Rightarrow> 'x world
     \<Rightarrow> jsvalue \<times> 'x WalletManager \<times> 'x world" where
  "restoreConnection parse m w =
     (if \<not> windowDefined w then (JNull, m, w)
      else (case localStorage w STORAGE_KEY of
              None \<Rightarrow> (JNull, m, w)
            | Some stored \<Rightarrow>
                if stored = [] then (JNull, m, w)
                else (case parse stored of
                        Some v \<Rightarrow> (v, m\<lparr>connectionInfo := v\<rparr>, w)
                      | None \<Rightarrow> (JNull, m, removeItem STORAGE_KEY w))))"

definition WalletManager_init ::
  "(string \<Rightarrow> jsvalue option) \<Rightarrow> 'x WalletManager \<Rightarrow> 'x world
     \<Rightarrow> (error + unit) \<times> 'x WalletManager \<times> 'x world" where
  "WalletManager_init parse m w =
     (case adapter_init (adapter m) of
        None \<Rightarrow> (case restoreConnection parse m w of (restored, m', w') \<Rightarrow> (Inr (), m', w'))
      | Some init \<Rightarrow>
          (case init w of
             (Inl e, w1) \<Rightarrow> (Inl e, note_call ''init'' m, w1)
           | (Inr u, w1) \<Rightarrow>
               (case restoreConnection parse (note_call ''init'' m) w1 of
                  (restored, m', w') \<Rightarrow> (Inr (), m', w'))))"

definition WalletManager_connect ::
  "'x WalletManager \<Rightarrow> 'x world \<Rightarrow> (error + jsvalue) \<times> 'x WalletManager \<times> 'x world" where
  "WalletManager_connect m w =
     (if \<not> adapter_isAvailable (adapter m) w
      then (Inl (Error ''No wallet provider available for the configured adapter''),
            note_call ''isAvailable'' m, w)
      else (case adapter_connect (adapter m) w of
              (Inl e, w') \<Rightarrow> (Inl e, note_call ''connect'' (note_call ''isAvailable'' m), w')
            | (Inr info, w') \<Rightarrow>
                (Inr info,
                 (note_call ''connect'' (note_call ''isAvailable'' m))\<lparr>connectionInfo := info\<rparr>,
                 w')))"

definition connectHashPack ::
  "'x WalletManager \<Rightarrow> 'x world \<Rightarrow> (error + jsvalue) \<times> 'x WalletManager \<times> 'x world" where
  "connectHashPack m w = WalletManager_connect m w"

definition WalletManager_disconnect ::
  "'x WalletManager \<Rightarrow> 'x world \<Rightarrow> (error + unit) \<times> 'x WalletManager \<times> 'x world" where
  "WalletManager_disconnect m w =
     (case adapter_disconnect (adapter m) w of
        (Inl e, w') \<Rightarrow> (Inl e, note_call ''disconnect'' m, w')
      | (Inr u, w') \<Rightarrow> (Inr (), (note_call ''disconnect'' m)\<lparr>connectionInfo := JNull\<rparr>, w'))"

definition WalletManager_requestTransaction ::
  "bytes \<Rightarrow> 'x WalletManager \<Rightarrow> 'x world \<Rightarrow> (error + bytes) \<times> 'x WalletManager \<times> 'x world" where
  "WalletManager_requestTransaction transaction m w =
     (if \<not> isConnected m then (Inl (Error ''Wallet not connected''), m, w)
      else (case adapter_requestTransaction (adapter m) transaction w of
              (r, w') \<Rightarrow> (r, note_call ''requestTransaction'' m, w')))"

subsection \<open>The shape of a connection record\<close>

text \<open>\<open>isValidAccountId\<close>: the regular expression \<open>/^0\.0\.\d+$/\<close>.\<close>

definition is_digit :: "char \<Rightarrow> bool" where
  "is_digit c = (c \<in> set ''0123456789'')"

definition isValidAccountId :: "string \<Rightarrow> bool" where
  "isValidAccountId accountId =
     (take 4 accountId = ''0.0.'' \<and> drop 4 accountId \<noteq> [] \<and> list_all is_digit (drop 4 accountId))"

text \<open>Property lookup on a value: \<open>undefined\<close> when the value is no object or has no such
  own property; the last entry of a key wins.\<close>

fun get_property :: "jsvalue \<Rightarrow> string \<Rightarrow> jsvalue" where
  "get_property (JObject entries) key =
     (case map_of (rev entries) key of Some v \<Rightarrow> v | None \<Rightarrow> JUndefined)"
| "get_property v key = JUndefined"

text \<open>The Connection Record of the specification: an account id of the form
  \<open>0.0.<digits>\<close> and a network that is \<open>testnet\<close> or \<open>mainnet\<close>.\<close>

definition has_record_shape :: "jsvalue \<Rightarrow> bool" where
  "has_record_shape v =
     ((case get_property v ''accountId'' of JString a \<Rightarrow> isValidAccountId a | _ \<Rightarrow> False)
      \<and> (get_property v ''network'' = JString ''testnet''
         \<or> get_property v ''network'' = JString ''mainnet''))"

subsection \<open>Sample environments\<close>

text \<open>
  The wallet object mocked in \<open>test/setup.ts\<close>; a wallet object that reports its account
  in the checksum form on the preview network, and whose \<open>disconnect\<close> throws; a browser
  environment with one storage slot; an environment with a paired session provider; a
  manager that holds the record of the mocked wallet; an adapter of the caller's whose
  \<open>disconnect\<close> rejects; and stand-ins for \<open>JSON.stringify\<close> and \<open>JSON.parse\<close> that
  agree with them on the values and strings of the examples (the records the sample wallets
  yield; the serialized record of the mocked wallet, the empty string and a truncated object
  are the only strings read back).
\<close>

definition test_record :: jsvalue where
  "test_record = JObject
     [(''accountId'', JString ''0.0.123456''),
      (''network'', JString ''testnet''),
      (''publicKey'', JString ''mock-public-key'')]"

definition test_hashpack :: hashpack_object where
  "test_hashpack =
     \<lparr>hp_connect = Some (Inr \<lparr>accountIds = Some [''0.0.123456''],
                              result_network = Some ''testnet'',
                              result_publicKey = Some ''mock-public-key''\<rparr>),
      hp_disconnect = Some (Inr ()),
      hp_requestTransaction = Some (\<lambda>transaction. Inl (Error ''Not implemented in tests''))\<rparr>"

definition checksum_hashpack :: hashpack_object where
  "checksum_hashpack =
     \<lparr>hp_connect = Some (Inr \<lparr>accountIds = Some [''0.0.123-vfmkw''],
                              result_network = Some ''previewnet'',
                              result_publicKey = None\<rparr>),
      hp_disconnect = Some (Inl (Error ''Extension context invalidated'')),
      hp_requestTransaction = None\<rparr>"

definition browser :: "hashpack_object option \<Rightarrow> (string \<Rightarrow> string option) \<Rightarrow> unit world" where
  "browser hp slots =
     \<lparr>windowDefined = True, localStorage = slots, window_hashpack = hp,
      wc_provider = None, custom = ()\<rparr>"

definition rejecting_adapter :: "unit WalletAdapter" where
  "rejecting_adapter =
     \<lparr>adapter_init = None,
      adapter_isAvailable = (\<lambda>w. True),
      adapter_connect = (\<lambda>w. (Inr test_record, w)),
      adapter_disconnect = (\<lambda>w. (Inl (Error ''Session transport closed''), w)),
      adapter_requestTransaction = (\<lambda>transaction w. (Inr transaction, w))\<rparr>"

definition test_record_json :: string where
  \<open>test_record_json =
     ''{"accountId":"0.0.123456","network":"testnet","publicKey":"mock-public-key"}''\<close>

definition sample_stringify :: "jsvalue \<Rightarrow> string" where
  \<open>sample_stringify v =
     (if v = test_record then test_record_json
      else if v = JObject [(''accountId'', JString ''0.0.123-vfmkw''),
                           (''network'', JString ''previewnet''),
                           (''publicKey'', JUndefined)]
      then ''{"accountId":"0.0.123-vfmkw","network":"previewnet"}''
      else if v = JObject [(''accountId'', JString ''0.0.123''),
                           (''network'', JString ''testnet'')]
      then ''{"accountId":"0.0.123","network":"testnet"}''
      else ''null'')\<close>

definition sample_parse :: "string \<Rightarrow> jsvalue option" where
  \<open>sample_parse s =
     (if s = test_record_json then Some test_record
      else if s = ''null'' then Some JNull
      else None)\<close>

definition truncated_json :: string where
  \<open>truncated_json = ''{"accountId":"0.0.1''\<close>

definition slot :: "string \<Rightarrow> string \<Rightarrow> string option" where
  "slot v = Map.empty(STORAGE_KEY \<mapsto> v)"

definition connected_with :: "'x WalletAdapter \<Rightarrow> 'x WalletManager" where
  "connected_with a = \<lparr>connectionInfo = test_record, adapter = a, invoked = []\<rparr>"

definition paired_world :: "unit world" where
  "paired_world =
     \<lparr>windowDefined = True, localStorage = Map.empty, window_hashpack = None,
      wc_provider = Some \<lparr>wc_connect = Inr (Some [''hedera:testnet:0.0.123'']),
                             wc_disconnect = Some (Inr ())\<rparr>,
      custom = ()\<rparr>"

section \<open>Properties of the retry policy\<close>


lemma default_retryOptions:
  "retryOptions cfg = None \<Longrightarrow>
   APIClient_retryOptions cfg
     = \<lparr>maxRetries = Some 3, baseDelay = Some 1000, maxDelay = Some 30000, exponentialBase = Some 2\<rparr>"
  by (simp add: APIClient_retryOptions_def)


lemma default_delays:
  "retryOptions cfg = None \<or> (\<exists>r. retryOptions cfg = Some r \<and> arg_baseDelay r = Missing) \<Longrightarrow>
   nullish (baseDelay (APIClient_retryOptions cfg)) 1000 = 1000"
  "retryOptions cfg = None \<or> (\<exists>r. retryOptions cfg = Some r \<and> arg_exponentialBase r = Missing) \<Longrightarrow>
   nullish (exponentialBase (APIClient_retryOptions cfg)) 2 = 2"
  "retryOptions cfg = None \<or> (\<exists>r. retryOptions cfg = Some r \<and> arg_maxDelay r = Missing) \<Longrightarrow>
   nullish (maxDelay (APIClient_retryOptions cfg)) 30000 = 30000"
  by (auto simp: APIClient_retryOptions_def)

text \<open>One unfolding of the interceptor loop, for each way an attempt can end.\<close>

lemma client_call_fulfilled:
  "tr n = Fulfilled r \<Longrightarrow> client_call opts tr n c slept = \<lparr>final = Inr r, sleeps = slept\<rparr>"
  by (subst client_call.simps) simp

lemma client_call_other:
  "tr n = OtherRejected msg \<Longrightarrow>
   client_call opts tr n c slept = \<lparr>final = Inl (NotAxiosError msg), sleeps = slept\<rparr>"
  by (subst client_call.simps) simp

lemma client_call_not_retried:
  "tr n = AxiosRejected cd resp \<Longrightarrow>
   \<not> shouldRetry opts (IsAxiosError \<lparr>config = Some c, code = cd, response = resp\<rparr>) \<Longrightarrow>
   client_call opts tr n c slept
     = \<lparr>final = Inl (IsAxiosError \<lparr>config = Some c, code = cd, response = resp\<rparr>), sleeps = slept\<rparr>"
  by (subst client_call.simps) (simp del: shouldRetry.simps client_call.simps)

lemma client_call_retried:
  "tr n = AxiosRejected cd resp \<Longrightarrow>
   shouldRetry opts (IsAxiosError \<lparr>config = Some c, code = cd, response = resp\<rparr>) \<Longrightarrow>
   client_call opts tr n c slept
     = client_call opts tr (Suc n)
         (bump_retryCount \<lparr>config = Some c, code = cd, response = resp\<rparr>)
         (slept @ [retry_delay opts (bump_retryCount \<lparr>config = Some c, code = cd, response = resp\<rparr>)])"
  by (subst client_call.simps)
     (simp del: shouldRetry.simps client_call.simps add: Let_def retryRequest_def)

lemma retry_delay_bump:
  "retry_delay opts (bump_retryCount \<lparr>config = Some c, code = cd, response = resp\<rparr>)
     = min (nullish (baseDelay opts) 1000 * nullish (exponentialBase opts) 2 ^ nullish (retryCount c) 0)
           (nullish (maxDelay opts) 30000)"
  by (simp add: retry_delay_def bump_retryCount_def Let_def)

lemma retryCount_bump:
  "nullish (retryCount (bump_retryCount \<lparr>config = Some c, code = cd, response = resp\<rparr>)) 0
     = Suc (nullish (retryCount c) 0)"
  by (simp add: bump_retryCount_def Let_def)

text \<open>
  The delays slept by one call: starting with counter \<open>k\<close>, the retries sleep the delays
  of exponents \<open>k, k + 1, \<dots>\<close>, and there are at most \<open>maxRetries - k\<close> of them.
\<close>

lemma sleeps_client_call:
  "\<exists>m. int (nullish (retryCount c) 0) + int m \<le> max (int (nullish (retryCount c) 0)) (nullish (maxRetries opts) 0)
     \<and> sleeps (client_call opts tr n c slept)
        = slept @ map (\<lambda>j. min (nullish (baseDelay opts) 1000
                                 * nullish (exponentialBase opts) 2 ^ (nullish (retryCount c) 0 + j))
                              (nullish (maxDelay opts) 30000)) [0..<m]"
proof (induction opts tr n c slept rule: client_call.induct)
  case (1 opts transport n c slept)
  show ?case
  proof (cases "transport n")
    case (Fulfilled r)
    then show ?thesis by (intro exI[of _ 0]) (simp add: client_call_fulfilled)
  next
    case (OtherRejected msg)
    then show ?thesis by (intro exI[of _ 0]) (simp add: client_call_other)
  next
    case (AxiosRejected cd resp)
    let ?err = "\<lparr>config = Some c, code = cd, response = resp\<rparr>"
    show ?thesis
    proof (cases "shouldRetry opts (IsAxiosError ?err)")
      case False
      with AxiosRejected show ?thesis
        by (intro exI[of _ 0]) (simp add: client_call_not_retried del: shouldRetry.simps)
    next
      case True
      then have below: "int (nullish (retryCount c) 0) < nullish (maxRetries opts) 0"
        by (simp split: if_splits)
      have rr: "(bump_retryCount ?err, retry_delay opts (bump_retryCount ?err))
                  = retryRequest opts ?err"
        by (simp add: retryRequest_def Let_def)
      from "1.IH"[OF AxiosRejected refl True rr] obtain m where
        bound: "int (nullish (retryCount (bump_retryCount ?err)) 0) + int m
                  \<le> max (int (nullish (retryCount (bump_retryCount ?err)) 0)) (nullish (maxRetries opts) 0)"
        and m: "sleeps (client_call opts transport (Suc n) (bump_retryCount ?err)
                   (slept @ [retry_delay opts (bump_retryCount ?err)]))
            = (slept @ [retry_delay opts (bump_retryCount ?err)])
              @ map (\<lambda>j. min (nullish (baseDelay opts) 1000
                               * nullish (exponentialBase opts) 2
                                   ^ (nullish (retryCount (bump_retryCount ?err)) 0 + j))
                            (nullish (maxDelay opts) 30000)) [0..<m]"
        by blast
      have "int (nullish (retryCount c) 0) + int (Suc m)
              \<le> max (int (nullish (retryCount c) 0)) (nullish (maxRetries opts) 0)"
        using bound below by (simp add: retryCount_bump)
      moreover have "sleeps (client_call opts transport n c slept)
          = slept @ map (\<lambda>j. min (nullish (baseDelay opts) 1000
                                 * nullish (exponentialBase opts) 2 ^ (nullish (retryCount c) 0 + j))
                              (nullish (maxDelay opts) 30000)) [0..<Suc m]"
        unfolding client_call_retried[where tr = transport and n = n, OF AxiosRejected True] m
        by (simp add: retry_delay_bump retryCount_bump map_upt_Suc del: upt_Suc)
      ultimately show ?thesis by blast
    qed
  qed
qed

lemma sleeps_client_request:
  "\<exists>m. int m \<le> max 0 (nullish (maxRetries opts) 0)
     \<and> sleeps (client_request opts tr p)
        = map (\<lambda>j. min (nullish (baseDelay opts) 1000 * nullish (exponentialBase opts) 2 ^ j)
                       (nullish (maxDelay opts) 30000)) [0..<m]"
  using sleeps_client_call[of "fresh_config p" opts tr 0 "[]"]
  by (simp add: client_request_def fresh_config_def)


lemma scenario_503:
  assumes o: "nullish (maxRetries opts) 0 = 3" "nullish (baseDelay opts) 1000 = 1000"
      "nullish (exponentialBase opts) 2 = 2" "nullish (maxDelay opts) 30000 = 30000"
    and t0: "tr 0 = AxiosRejected cd0 (Some \<lparr>status = 503, data = d0\<rparr>)"
    and t1: "tr (Suc 0) = AxiosRejected cd1 (Some \<lparr>status = 503, data = d1\<rparr>)"
    and t2: "tr (Suc (Suc 0)) = AxiosRejected cd2 (Some \<lparr>status = 503, data = d2\<rparr>)"
    and t3: "tr (Suc (Suc (Suc 0))) = Fulfilled r"
  shows "client_request opts tr p = \<lparr>final = Inr r, sleeps = [1000, 2000, 4000]\<rparr>"
  unfolding client_request_def fresh_config_def
  apply (subst client_call_retried[where tr = tr and n = 0, OF t0])
   apply (simp add: o)
  apply (subst client_call_retried[where tr = tr and n = "Suc 0", OF t1])
   apply (simp add: o bump_retryCount_def)
  apply (subst client_call_retried[where tr = tr and n = "Suc (Suc 0)", OF t2])
   apply (simp add: o bump_retryCount_def)
  apply (subst client_call_fulfilled[where tr = tr and n = "Suc (Suc (Suc 0))", OF t3])
  apply (simp add: o bump_retryCount_def retry_delay_def)
  done






text \<open>
  C2. The delay slept before retry \<open>i\<close> (counted from 1) of a request is
  \<open>min (baseDelay * exponentialBase ^ (i - 1)) maxDelay\<close>, so no delay exceeds \<open>maxDelay\<close>.
  The options the caller leaves out are \<open>baseDelay = 1000\<close>, \<open>exponentialBase = 2\<close> and
  \<open>maxDelay = 30000\<close>; with these values and \<open>maxRetries = 3\<close> the delays slept are 1000,
  2000, 4000 ms, in this order, as far as retries happen.
\<close>

theorem C2_retry_delay:
  "(\<forall>i. 1 \<le> i \<and> i \<le> length (sleeps (client_request opts tr p)) \<longrightarrow>
        sleeps (client_request opts tr p) ! (i - 1)
          = min (nullish (baseDelay opts) 1000 * nullish (exponentialBase opts) 2 ^ (i - 1))
                (nullish (maxDelay opts) 30000))
   \<and> (\<forall>d \<in> set (sleeps (client_request opts tr p)). d \<le> nullish (maxDelay opts) 30000)
   \<and> (retryOptions cfg = None
        \<or> (\<exists>r. retryOptions cfg = Some r \<and> arg_baseDelay r = Missing
                 \<and> arg_exponentialBase r = Missing \<and> arg_maxDelay r = Missing) \<longrightarrow>
        nullish (baseDelay (APIClient_retryOptions cfg)) 1000 = 1000
        \<and> nullish (exponentialBase (APIClient_retryOptions cfg)) 2 = 2
        \<and> nullish (maxDelay (APIClient_retryOptions cfg)) 30000 = 30000)
   \<and> (nullish (maxRetries opts) 0 = 3 \<and> nullish (baseDelay opts) 1000 = 1000
        \<and> nullish (exponentialBase opts) 2 = 2 \<and> nullish (maxDelay opts) 30000 = 30000 \<longrightarrow>
        sleeps (client_request opts tr p)
          = take (length (sleeps (client_request opts tr p))) [1000, 2000, 4000]
        \<and> (\<forall>d \<in> set (sleeps (client_request opts tr p)). d \<le> 30000))"
proof (intro conjI impI allI)
  obtain m where le: "int m \<le> max 0 (nullish (maxRetries opts) 0)"
    and m: "sleeps (client_request opts tr p)
        = map (\<lambda>j. min (nullish (baseDelay opts) 1000 * nullish (exponentialBase opts) 2 ^ j)
                       (nullish (maxDelay opts) 30000)) [0..<m]"
    using sleeps_client_request[of opts tr p] by blast
  show capped: "\<forall>d \<in> set (sleeps (client_request opts tr p)). d \<le> nullish (maxDelay opts) 30000"
    unfolding m by auto
  show "sleeps (client_request opts tr p) ! (i - 1)
          = min (nullish (baseDelay opts) 1000 * nullish (exponentialBase opts) 2 ^ (i - 1))
                (nullish (maxDelay opts) 30000)"
    if i: "1 \<le> i \<and> i \<le> length (sleeps (client_request opts tr p))" for i
  proof -
    from i have "i - 1 < m" unfolding m by simp arith
    then show ?thesis by (simp add: m)
  qed
  assume o: "nullish (maxRetries opts) 0 = 3 \<and> nullish (baseDelay opts) 1000 = 1000
        \<and> nullish (exponentialBase opts) 2 = 2 \<and> nullish (maxDelay opts) 30000 = 30000"
  from le o have "m = 0 \<or> m = 1 \<or> m = 2 \<or> m = 3" by simp arith
  then show "sleeps (client_request opts tr p)
          = take (length (sleeps (client_request opts tr p))) [1000, 2000, 4000]"
    unfolding m using o
    by (auto simp: upt_rec[of 0] upt_rec[of 1] upt_rec[of 2] numeral_2_eq_2 numeral_3_eq_3)
  from capped o show "\<forall>d \<in> set (sleeps (client_request opts tr p)). d \<le> 30000"
    by simp
next
  assume d: "retryOptions cfg = None
        \<or> (\<exists>r. retryOptions cfg = Some r \<and> arg_baseDelay r = Missing
                 \<and> arg_exponentialBase r = Missing \<and> arg_maxDelay r = Missing)"
  then show "nullish (baseDelay (APIClient_retryOptions cfg)) 1000 = 1000"
    and "nullish (exponentialBase (APIClient_retryOptions cfg)) 2 = 2"
    and "nullish (maxDelay (APIClient_retryOptions cfg)) 30000 = 30000"
    by (auto intro: default_delays)
qed

theorem C2_retry_delay_witness:
  "sleeps (client_request (APIClient_retryOptions default_config) three_503_then_200 ''GET /operations/1'') ! 0 = 1000
   \<and> sleeps (client_request (APIClient_retryOptions default_config) three_503_then_200 ''GET /operations/1'') ! 1 = 2000
   \<and> sleeps (client_request (APIClient_retryOptions default_config) three_503_then_200 ''GET /operations/1'') ! 2 = 4000
   \<and> length (sleeps (client_request (APIClient_retryOptions default_config) three_503_then_200 ''GET /operations/1'')) = 3
   \<and> nullish (maxDelay (APIClient_retryOptions default_config)) 30000 = 30000"
proof -
  let ?D = "APIClient_retryOptions default_config"
  let ?R = "client_request ?D three_503_then_200 ''GET /operations/1''"
  have d: "retryOptions default_config = None" by (simp add: default_config_def)
  have o: "?D = \<lparr>maxRetries = Some 3, baseDelay = Some 1000, maxDelay = Some 30000, exponentialBase = Some 2\<rparr>"
    by (rule default_retryOptions[OF d])
  have e: "nullish (maxRetries ?D) 0 = 3 \<and> nullish (baseDelay ?D) 1000 = 1000
        \<and> nullish (exponentialBase ?D) 2 = 2 \<and> nullish (maxDelay ?D) 30000 = 30000"
    by (simp add: o)
  have R: "?R = \<lparr>final = Inr \<lparr>status = 200, data = ''ok''\<rparr>, sleeps = [1000, 2000, 4000]\<rparr>"
    by (rule scenario_503) (simp_all add: o three_503_then_200_def)
  have len: "length (sleeps ?R) = 3" by (simp add: R)
  note C2 = C2_retry_delay[of ?D three_503_then_200 "''GET /operations/1''" default_config]
  from C2 have all: "\<forall>i. 1 \<le> i \<and> i \<le> length (sleeps ?R) \<longrightarrow>
        sleeps ?R ! (i - 1)
          = min (nullish (baseDelay ?D) 1000 * nullish (exponentialBase ?D) 2 ^ (i - 1))
                (nullish (maxDelay ?D) 30000)"
    by blast
  from C2 d have md: "nullish (maxDelay ?D) 30000 = 30000"
    by blast
  from C2 e have pre: "sleeps ?R = take (length (sleeps ?R)) [1000, 2000, 4000]"
    by blast
  from all[rule_format, of 1] len have "sleeps ?R ! 0 = 1000" by (simp add: o)
  moreover from all[rule_format, of 2] len have "sleeps ?R ! 1 = 2000" by (simp add: o)
  moreover from all[rule_format, of 3] len have "sleeps ?R ! 2 = 4000" by (simp add: o)
  ultimately show ?thesis using len md by simp
qed

section \<open>Properties of the sanitizing and redacting loops\<close>

lemma put_fresh: "key \<notin> fst ` set target \<Longrightarrow> put target key v = target @ [(key, v)]"
  by (induction target key v rule: put.induct) auto

lemma keys_put:
  "map fst (put target key v)
     = (if key \<in> fst ` set target then map fst target else map fst target @ [key])"
  by (induction target key v rule: put.induct) (auto simp: image_iff)

lemma set_put: "(k, w) \<in> set (put target key v) \<Longrightarrow> (k, w) \<in> set target \<or> (k = key \<and> w = v)"
  by (induction target key v rule: put.induct) (auto split: if_splits)

lemma store_all_distinct_keys:
  "distinct (map fst target) \<Longrightarrow> distinct (map fst (store_all f target es))"
  by (induction f target es rule: store_all.induct) (auto simp: set_property_def keys_put)

lemma store_all_no_proto:
  "''__proto__'' \<notin> fst ` set target \<Longrightarrow> ''__proto__'' \<notin> fst ` set (store_all f target es)"
proof (induction f target es rule: store_all.induct)
  case (1 f target)
  then show ?case by simp
next
  case (2 f target key v rest)
  have "''__proto__'' \<notin> fst ` set (set_property target key (f key v))"
    using "2.prems" keys_put[of target key "f key v"]
    by (auto simp: set_property_def simp flip: set_map split: if_splits)
  then show ?case using "2.IH" by simp
qed

lemma store_all_values:
  "(k, w) \<in> set (store_all f target es) \<Longrightarrow>
     (k, w) \<in> set target \<or> (\<exists>v. (k, v) \<in> set es \<and> w = f k v)"
proof (induction f target es rule: store_all.induct)
  case (1 f target)
  then show ?case by simp
next
  case (2 f target key v rest)
  from "2.prems" have "(k, w) \<in> set (store_all f (set_property target key (f key v)) rest)"
    by simp
  from "2.IH"[OF this] show ?case
    by (auto simp: set_property_def dest: set_put split: if_splits)
qed

lemma store_all_distinct:
  "distinct (map fst es) \<Longrightarrow> fst ` set es \<inter> fst ` set target = {} \<Longrightarrow>
   store_all f target es
     = target @ map (\<lambda>(k, v). (k, f k v)) (filter (\<lambda>(k, v). k \<noteq> ''__proto__'') es)"
proof (induction f target es rule: store_all.induct)
  case (1 f target)
  then show ?case by simp
next
  case (2 f target key v rest)
  have fresh: "key \<notin> fst ` set target" using "2.prems"(2) by auto
  have d: "distinct (map fst rest)" and k: "key \<notin> fst ` set rest"
    using "2.prems"(1) by (auto simp flip: set_map)
  have disj: "fst ` set rest \<inter> fst ` set (set_property target key (f key v)) = {}"
    using "2.prems"(2) k fresh
    by (auto simp: set_property_def put_fresh)
  show ?case
    using "2.IH"[OF d disj] fresh by (simp add: set_property_def put_fresh)
qed

lemma sanitize_into_store_all:
  "sanitize_into target es = store_all (\<lambda>k. sanitize_value) target es"
  by (induction es arbitrary: target)
     (auto simp: sanitize_value_def sanitizeEventData_def split: jsvalue.splits)

lemma redact_into_store_all:
  "redact_into target es = store_all redact_value target es"
  by (induction es arbitrary: target)
     (auto simp: redact_value_def redactSensitiveData_def split: jsvalue.splits)

lemma strip_control_idem: "strip_control (strip_control s) = strip_control s"
  by (simp add: strip_control_def)

lemma sanitize_value_idem: "sanitize_value (sanitize_value v) = sanitize_value v"
proof (induction v)
  case (JObject es)
  let ?S = "sanitizeEventData es"
  have S: "?S = store_all (\<lambda>k. sanitize_value) [] es"
    by (simp add: sanitizeEventData_def sanitize_into_store_all)
  have dk: "distinct (map fst ?S)" and np: "''__proto__'' \<notin> fst ` set ?S"
    unfolding S by (simp_all add: store_all_distinct_keys store_all_no_proto)
  have "sanitizeEventData ?S = map (\<lambda>(k, v). (k, sanitize_value v)) (filter (\<lambda>(k, v). k \<noteq> ''__proto__'') ?S)"
    using store_all_distinct[OF dk, of "[]" "\<lambda>k. sanitize_value"]
    by (simp add: sanitizeEventData_def sanitize_into_store_all)
  also have "filter (\<lambda>(k, v). k \<noteq> ''__proto__'') ?S = ?S"
    using np by (auto simp: filter_id_conv image_iff)
  also have "map (\<lambda>(k, v). (k, sanitize_value v)) ?S = ?S"
  proof (rule map_idI)
    fix x assume x: "x \<in> set ?S"
    obtain k w where kw: "x = (k, w)" by (cases x)
    from x[unfolded S kw] obtain v where v: "(k, v) \<in> set es" and w: "w = sanitize_value v"
      using store_all_values[of k w "\<lambda>k. sanitize_value" "[]" es] by auto
    have "sanitize_value (sanitize_value v) = sanitize_value v"
      using JObject[OF v] by simp
    then show "(case x of (k, v) \<Rightarrow> (k, sanitize_value v)) = x" by (simp add: kw w)
  qed
  finally show ?case by (simp add: sanitize_value_def)
qed (simp_all add: sanitize_value_def strip_control_idem)

lemma sanitizeEventData_idem: "sanitizeEventData (sanitizeEventData d) = sanitizeEventData d"
  using sanitize_value_idem[of "JObject d"] by (simp add: sanitize_value_def)

lemma object_strings_set:
  "set (object_strings xs) = (\<Union>(k, w) \<in> set xs. set (object_strings [(k, w)]))"
  by (induction xs rule: object_strings.induct) auto

lemma sanitize_value_clean:
  "\<forall>s \<in> set (object_strings [(k, sanitize_value v)]). \<forall>c \<in> set s. \<not> is_control c"
proof (induction v arbitrary: k)
  case (JObject es)
  have S: "sanitizeEventData es = store_all (\<lambda>k. sanitize_value) [] es"
    by (simp add: sanitizeEventData_def sanitize_into_store_all)
  show ?case
  proof (intro ballI)
    fix s c assume s: "s \<in> set (object_strings [(k, sanitize_value (JObject es))])" and c: "c \<in> set s"
    from s have "s \<in> set (object_strings (sanitizeEventData es))"
      by (simp add: sanitize_value_def)
    then obtain k' w where kw: "(k', w) \<in> set (sanitizeEventData es)"
      and sw: "s \<in> set (object_strings [(k', w)])"
      using object_strings_set[of "sanitizeEventData es"] by auto
    from kw[unfolded S] obtain v where v: "(k', v) \<in> set es" and w: "w = sanitize_value v"
      using store_all_values[of k' w "\<lambda>k. sanitize_value" "[]" es] by auto
    from JObject[OF v, of v k'] sw c show "\<not> is_control c" by (simp add: w)
  qed
qed (simp_all add: sanitize_value_def strip_control_def)

lemma sanitizeEventData_clean:
  "\<forall>s \<in> set (object_strings (sanitizeEventData d)). \<forall>c \<in> set s. \<not> is_control c"
  using sanitize_value_clean[of "''data''" "JObject d"] by (simp add: sanitize_value_def)

lemma sanitizeEventData_distinct:
  "distinct (map fst d) \<Longrightarrow>
   sanitizeEventData d
     = map (\<lambda>(k, v). (k, sanitize_value v)) (filter (\<lambda>(k, v). k \<noteq> ''__proto__'') d)"
  using store_all_distinct[of d "[]" "\<lambda>k. sanitize_value"]
  by (simp add: sanitizeEventData_def sanitize_into_store_all)

lemma redactSensitiveData_distinct:
  "distinct (map fst obj) \<Longrightarrow>
   redactSensitiveData obj
     = map (\<lambda>(k, v). (k, redact_value k v)) (filter (\<lambda>(k, v). k \<noteq> ''__proto__'') obj)"
  using store_all_distinct[of obj "[]" redact_value]
  by (simp add: redactSensitiveData_def redact_into_store_all)

lemma str_includes_subset: "str_includes s sub \<Longrightarrow> set sub \<subseteq> set s"
proof (induction s)
  case Nil then show ?case by simp
next
  case (Cons c cs)
  then show ?case
    by (auto simp: startsWith_def dest: in_set_takeD) (metis in_set_takeD set_ConsD)
qed

lemma lower_char_not_K: "lower_char c \<noteq> CHR ''K''"
  by (auto simp add: lower_char_def split: option.splits if_splits)

lemma no_K_in_lower: "CHR ''K'' \<notin> set (toLowerCase key)"
  by (auto simp: toLowerCase_def dest: lower_char_not_K[symmetric, THEN notE])

lemma never_matches:
  "\<not> str_includes (toLowerCase key) ''apiKey''"
  "\<not> str_includes (toLowerCase key) ''privateKey''"
  "\<not> str_includes (toLowerCase key) ''operatorKey''"
  using no_K_in_lower[of key] by (auto dest!: str_includes_subset)

lemma isSensitive_iff:
  "isSensitive key \<longleftrightarrow>
     (let l = toLowerCase key in
      str_includes l ''api_key'' \<or> str_includes l ''apikey''
      \<or> str_includes l ''private_key'' \<or> str_includes l ''privatekey''
      \<or> str_includes l ''operator_key''
      \<or> str_includes l ''password'' \<or> str_includes l ''secret'' \<or> str_includes l ''token''
      \<or> str_includes l ''authorization'' \<or> str_includes l ''auth'')"
  unfolding isSensitive_def sensitiveKeys_def Let_def list_ex_Cons_iff list_ex_Nil_iff
  using never_matches[of key] by blast

lemma spec_isSensitive_iff:
  "spec_isSensitive key \<longleftrightarrow>
     (let l = toLowerCase key in
      str_includes l ''apikey'' \<or> str_includes l ''privatekey'' \<or> str_includes l ''operatorkey''
      \<or> str_includes l ''password'' \<or> str_includes l ''secret'' \<or> str_includes l ''token''
      \<or> str_includes l ''authorization'' \<or> str_includes l ''auth'')"
proof -
  have l: "toLowerCase ''apiKey'' = ''apikey''" "toLowerCase ''privateKey'' = ''privatekey''"
    "toLowerCase ''operatorKey'' = ''operatorkey''" "toLowerCase ''password'' = ''password''"
    "toLowerCase ''secret'' = ''secret''" "toLowerCase ''token'' = ''token''"
    "toLowerCase ''authorization'' = ''authorization''" "toLowerCase ''auth'' = ''auth''"
    by (simp_all add: toLowerCase_def lower_char_def)
  show ?thesis
    unfolding spec_isSensitive_def spec_sensitive_names_def Let_def list_ex_Cons_iff list_ex_Nil_iff l by blast
qed

text \<open>
  C8 (as amended). \<open>sanitizeEventData\<close> is idempotent. It stores, for every entry of a
  record with distinct keys except an own property named \<open>__proto__\<close>, the sanitized value
  under the same key, in the same order: a string without its bytes in \<open>[0x00-0x1F, 0x7F]\<close>
  (the other bytes kept in order), a nested plain object sanitized in the same way, and
  every other value, arrays with all they contain included, unchanged. So every string value
  of the result that is reached through nested plain objects only is free of these bytes.
\<close>

theorem C8_sanitize:
  "sanitizeEventData (sanitizeEventData d) = sanitizeEventData d
   \<and> (\<forall>s \<in> set (object_strings (sanitizeEventData d)). \<forall>c \<in> set s. \<not> is_control c)
   \<and> (distinct (map fst d) \<longrightarrow>
        sanitizeEventData d
          = map (\<lambda>(k, v). (k, sanitize_value v)) (filter (\<lambda>(k, v). k \<noteq> ''__proto__'') d))
   \<and> sanitize_value (JString str) = JString (filter (\<lambda>c. \<not> is_control c) str)
   \<and> sanitize_value (JObject entries) = JObject (sanitizeEventData entries)
   \<and> sanitize_value (JArray xs) = JArray xs
   \<and> sanitize_value (JNumber n) = JNumber n
   \<and> sanitize_value (JBool b) = JBool b
   \<and> sanitize_value JNull = JNull
   \<and> sanitize_value JUndefined = JUndefined"
proof (intro conjI impI)
  show "sanitizeEventData (sanitizeEventData d) = sanitizeEventData d"
    by (rule sanitizeEventData_idem)
  show "\<forall>s \<in> set (object_strings (sanitizeEventData d)). \<forall>c \<in> set s. \<not> is_control c"
    by (rule sanitizeEventData_clean)
  show "sanitizeEventData d
          = map (\<lambda>(k, v). (k, sanitize_value v)) (filter (\<lambda>(k, v). k \<noteq> ''__proto__'') d)"
    if "distinct (map fst d)" using that by (rule sanitizeEventData_distinct)
qed (simp_all add: sanitize_value_def strip_control_def)

theorem C8_sanitize_witness:
  "distinct (map fst docs_event_data)
   \<and> sanitizeEventData docs_event_data = [(''userId'', JString ''123''), (''name'', JString ''Test'')]
   \<and> sanitizeEventData (sanitizeEventData docs_event_data) = sanitizeEventData docs_event_data
   \<and> object_strings (sanitizeEventData docs_event_data) = [''123'', ''Test'']"
proof -
  have d: "distinct (map fst docs_event_data)" by (simp add: docs_event_data_def)
  note C8 = C8_sanitize[of docs_event_data]
  from C8 d have "sanitizeEventData docs_event_data
      = map (\<lambda>(k, v). (k, sanitize_value v)) (filter (\<lambda>(k, v). k \<noteq> ''__proto__'') docs_event_data)"
    by blast
  then have v: "sanitizeEventData docs_event_data
      = [(''userId'', JString ''123''), (''name'', JString ''Test'')]"
    by (simp add: docs_event_data_def sanitize_value_def strip_control_def is_control_def)
  from C8 have "sanitizeEventData (sanitizeEventData docs_event_data) = sanitizeEventData docs_event_data"
    by blast
  with d v show ?thesis by simp
qed

text \<open>
  The claim as stated fails on a string inside an array: the array is stored as it is, and
  the byte \<open>0x00\<close> of its element survives.
\<close>

theorem C8_counterexample:
  "sanitizeEventData tagged_event_data = [(''tags'', JArray [JString (''a'' @ [CHR 0x00])])]
   \<and> all_strings (JObject (sanitizeEventData tagged_event_data)) = [''a'' @ [CHR 0x00]]
   \<and> is_control (CHR 0x00)"
  by (simp add: tagged_event_data_def sanitizeEventData_def set_property_def is_control_def)

text \<open>
  C9 (as amended). For a record with distinct keys, \<open>redactSensitiveData\<close> stores every
  entry except an own property named \<open>__proto__\<close> under its key, in order: the marker
  \<open>[REDACTED]\<close> when the key is sensitive, else a nested plain object redacted in the same
  way, else the value unchanged (arrays are not entered). For every key whose lower-case
  form does not contain \<open>operatorkey\<close>, the key is sensitive exactly when it contains,
  ignoring case, one of the eight names of the specification or one of \<open>api_key\<close>,
  \<open>private_key\<close>, \<open>operator_key\<close>.
\<close>

theorem C9_redact:
  "(distinct (map fst obj) \<longrightarrow>
      redactSensitiveData obj
        = map (\<lambda>(k, v). (k, redact_value k v)) (filter (\<lambda>(k, v). k \<noteq> ''__proto__'') obj))
   \<and> (isSensitive key \<longrightarrow> redact_value key v = JString ''[REDACTED]'')
   \<and> (\<not> isSensitive key \<longrightarrow>
         redact_value key (JObject entries) = JObject (redactSensitiveData entries)
         \<and> redact_value key (JArray xs) = JArray xs
         \<and> redact_value key (JString str) = JString str
         \<and> redact_value key (JNumber n) = JNumber n
         \<and> redact_value key (JBool b) = JBool b
         \<and> redact_value key JNull = JNull
         \<and> redact_value key JUndefined = JUndefined)
   \<and> (\<not> str_includes (toLowerCase key') ''operatorkey'' \<longrightarrow>
         (isSensitive key' \<longleftrightarrow>
            spec_isSensitive key'
            \<or> str_includes (toLowerCase key') ''api_key''
            \<or> str_includes (toLowerCase key') ''private_key''
            \<or> str_includes (toLowerCase key') ''operator_key''))"
proof (intro conjI impI)
  show "redactSensitiveData obj
        = map (\<lambda>(k, v). (k, redact_value k v)) (filter (\<lambda>(k, v). k \<noteq> ''__proto__'') obj)"
    if "distinct (map fst obj)" using that by (rule redactSensitiveData_distinct)
  show "isSensitive key' \<longleftrightarrow>
            spec_isSensitive key'
            \<or> str_includes (toLowerCase key') ''api_key''
            \<or> str_includes (toLowerCase key') ''private_key''
            \<or> str_includes (toLowerCase key') ''operator_key''"
    if "\<not> str_includes (toLowerCase key') ''operatorkey''"
    using that unfolding isSensitive_iff spec_isSensitive_iff Let_def by blast
qed (simp_all add: redact_value_def)

theorem C9_redact_witness:
  "distinct (map fst docs_log_data)
   \<and> isSensitive ''apiKey''
   \<and> \<not> isSensitive ''userId''
   \<and> \<not> str_includes (toLowerCase ''Authorization'') ''operatorkey''
   \<and> isSensitive ''Authorization''
   \<and> spec_isSensitive ''Authorization''
   \<and> redactSensitiveData docs_log_data
       = [(''apiKey'', JString ''[REDACTED]''),
          (''operatorKey'', redact_value ''operatorKey'' (JString ''private'')),
          (''userId'', JString ''123'')]"
proof -
  have d: "distinct (map fst docs_log_data)" by (simp add: docs_log_data_def)
  have api: "isSensitive ''apiKey''"
    by code_simp
  have user: "\<not> isSensitive ''userId''"
    by code_simp
  have no: "\<not> str_includes (toLowerCase ''Authorization'') ''operatorkey''"
    by code_simp
  have spec: "spec_isSensitive ''Authorization''"
    by code_simp
  note C9 = C9_redact[of docs_log_data "''apiKey''" "JString ''secret123''" _ _ _ _ _ "''Authorization''"]
  from C9 no spec have auth: "isSensitive ''Authorization''" by blast
  from C9 api have r1: "redact_value ''apiKey'' (JString ''secret123'') = JString ''[REDACTED]''"
    by blast
  from C9_redact[of docs_log_data "''userId''" _ _ _ "''123''"] user
  have r3: "redact_value ''userId'' (JString ''123'') = JString ''123''" by blast
  from C9 d have "redactSensitiveData docs_log_data
      = map (\<lambda>(k, v). (k, redact_value k v)) (filter (\<lambda>(k, v). k \<noteq> ''__proto__'') docs_log_data)"
    by blast
  then have "redactSensitiveData docs_log_data
       = [(''apiKey'', JString ''[REDACTED]''),
          (''operatorKey'', redact_value ''operatorKey'' (JString ''private'')),
          (''userId'', JString ''123'')]"
    by (simp add: docs_log_data_def r1 r3)
  with d api user no auth spec show ?thesis by simp
qed

text \<open>
  The claim as stated fails on a snake-case key: \<open>api_key\<close> contains none of the eight
  names, whatever the case, and its value is replaced all the same.
\<close>

theorem C9_counterexample:
  "\<not> spec_isSensitive ''api_key''
   \<and> redactSensitiveData snake_case_log_data = [(''api_key'', JString ''[REDACTED]'')]"
  by code_simp

text \<open>
  The example of \<open>docs/SECURITY_FIXES.md\<close>, whose comment promises the marker for
  \<open>operatorKey\<close>: the lower-cased key \<open>operatorkey\<close> contains no entry of
  \<open>sensitiveKeys\<close> (the entry \<open>operatorKey\<close> has a capital letter, and there is no
  \<open>operatorkey\<close>), so the value is returned in the clear.
\<close>

lemma docs_example_operatorKey_in_clear:
  "redactSensitiveData docs_log_data
     = [(''apiKey'', JString ''[REDACTED]''),
        (''operatorKey'', JString ''private''),
        (''userId'', JString ''123'')]"
  by code_simp

section \<open>Properties of the rate limiter\<close>

lemma acquire_immediate:
  "int (length (prune rl now)) < maxRequests rl \<Longrightarrow>
   acquire timer rl now = Some (rl\<lparr>requests := prune rl now @ [now]\<rparr>, now)"
  by (subst acquire.simps) (simp add: Let_def)

lemma acquire_wait:
  "prune rl now = oldest # others \<Longrightarrow> maxRequests rl \<le> int (length (prune rl now)) \<Longrightarrow>
   acquire timer rl now
     = acquire timer (rl\<lparr>requests := prune rl now\<rparr>) (timer now (windowMs rl - (now - oldest)))"
  by (subst acquire.simps) (simp add: Let_def)

lemma prune_kept: "t \<in> set (prune rl now) \<longleftrightarrow> t \<in> set (requests rl) \<and> now - t < windowMs rl"
  by (simp add: prune_def)

lemma length_prune: "length (prune rl now) \<le> length (requests rl)"
  by (simp add: prune_def)

text \<open>After a punctual wait for the oldest kept grant, that grant is pruned, so the
  window has room and the second pass returns.\<close>

lemma acquire_after_wait:
  assumes p: "punctual timer"
    and kept: "prune rl now = oldest # others"
    and full: "maxRequests rl \<le> int (length (prune rl now))"
    and inv: "int (length (requests rl)) \<le> maxRequests rl"
  defines "now' \<equiv> timer now (windowMs rl - (now - oldest))"
  shows "acquire timer rl now
           = Some (rl\<lparr>requests := filter (\<lambda>time. now' - time < windowMs rl) (prune rl now) @ [now']\<rparr>, now')"
    and "oldest + windowMs rl \<le> now'" and "now < now'"
    and "length (filter (\<lambda>time. now' - time < windowMs rl) (prune rl now)) < length (prune rl now)"
proof -
  have late: "oldest + windowMs rl \<le> now'"
    using p[unfolded punctual_def, rule_format, of now "windowMs rl - (now - oldest)"]
    by (simp add: now'_def)
  have "oldest \<in> set (prune rl now)" by (simp add: kept)
  then have young: "now - oldest < windowMs rl" by (simp add: prune_kept)
  with late show "now < now'" by simp
  let ?rl = "rl\<lparr>requests := prune rl now\<rparr>"
  have pr: "prune ?rl now' = filter (\<lambda>time. now' - time < windowMs rl) (prune rl now)"
    by (simp add: prune_def)
  show shorter: "length (filter (\<lambda>time. now' - time < windowMs rl) (prune rl now)) < length (prune rl now)"
    unfolding kept using late by (simp add: le_imp_less_Suc)
  then have "length (prune ?rl now') < length (prune rl now)"
    by (simp only: pr)
  also have "\<dots> \<le> length (requests rl)" by (rule length_prune)
  finally have room: "int (length (prune ?rl now')) < maxRequests ?rl" using inv by simp
  show "acquire timer rl now
           = Some (rl\<lparr>requests := filter (\<lambda>time. now' - time < windowMs rl) (prune rl now) @ [now']\<rparr>, now')"
    unfolding acquire_wait[OF kept full] now'_def[symmetric]
    using acquire_immediate[OF room, of timer] by (simp add: pr)
  show "oldest + windowMs rl \<le> now'" by (rule late)
qed


text \<open>The scenario of the claim: a limiter of 5 grants per 1000 ms, first used at \<open>t0\<close>.
  After \<open>k\<close> calls either no grant has been pruned yet and all \<open>k\<close> are in the window, or
  1000 ms have passed since \<open>t0\<close>.\<close>

lemma scenario_step:
  assumes p: "punctual timer"
    and m: "maxRequests rl = 5" and w: "windowMs rl = 1000"
    and len5: "length (requests rl) \<le> 5" and lenk: "length (requests rl) \<le> k"
    and t0: "t0 \<le> now"
    and inv: "(length (requests rl) = k \<and> (\<forall>t \<in> set (requests rl). t0 \<le> t)) \<or> t0 + 1000 \<le> now"
  shows "\<exists>rl' now'. acquire timer rl (now + int g) = Some (rl', now')
           \<and> maxRequests rl' = 5 \<and> windowMs rl' = 1000
           \<and> length (requests rl') \<le> 5 \<and> length (requests rl') \<le> Suc k
           \<and> t0 \<le> now'
           \<and> ((length (requests rl') = Suc k \<and> (\<forall>t \<in> set (requests rl'). t0 \<le> t))
                \<or> t0 + 1000 \<le> now')
           \<and> (k < 5 \<longrightarrow> now' = now + int g)"
proof -
  let ?now = "now + int g"
  let ?kept = "prune rl ?now"
  have lk: "length ?kept \<le> length (requests rl)" by (rule length_prune)
  show ?thesis
  proof (cases "int (length ?kept) < maxRequests rl")
    case True
    let ?rl' = "rl\<lparr>requests := ?kept @ [?now]\<rparr>"
    have r: "acquire timer rl ?now = Some (?rl', ?now)" by (rule acquire_immediate[OF True])
    have d: "(length (requests ?rl') = Suc k \<and> (\<forall>t \<in> set (requests ?rl'). t0 \<le> t))
                \<or> t0 + 1000 \<le> ?now"
    proof (cases "t0 + 1000 \<le> ?now")
      case True then show ?thesis by simp
    next
      case False
      with inv have a: "length (requests rl) = k" and b: "\<forall>t \<in> set (requests rl). t0 \<le> t"
        by auto
      have "?kept = requests rl"
        unfolding prune_def using b False w by (auto simp: filter_id_conv)
      then show ?thesis using a b t0 by simp
    qed
    show ?thesis
      using r m w True lk lenk t0 d by (intro exI[of _ ?rl'] exI[of _ ?now]) auto
  next
    case False
    then have full: "maxRequests rl \<le> int (length ?kept)" by simp
    with m obtain oldest others where kept: "?kept = oldest # others"
      by (cases ?kept) auto
    have inv': "int (length (requests rl)) \<le> maxRequests rl" using len5 m by simp
    define now' where "now' = timer ?now (windowMs rl - (?now - oldest))"
    let ?rl' = "rl\<lparr>requests := filter (\<lambda>time. now' - time < windowMs rl) ?kept @ [now']\<rparr>"
    note aw = acquire_after_wait[OF p kept full inv', folded now'_def]
    have k5: "5 \<le> k" using full m lk lenk by simp
    have "oldest \<in> set (requests rl)"
      using kept prune_kept[of oldest rl ?now] by simp
    then have "t0 + 1000 \<le> now'"
      using inv aw(2) aw(3) w t0 by auto
    moreover have "length (requests ?rl') \<le> 5" using aw(4) lk len5 by simp
    moreover have "length (requests ?rl') \<le> Suc k" using aw(4) lk lenk by simp
    moreover have "t0 \<le> now'" using aw(3) t0 by simp
    ultimately show ?thesis
      using aw(1) m w k5 by (intro exI[of _ ?rl'] exI[of _ now']) auto
  qed
qed

lemma scenario_run:
  assumes p: "punctual timer"
  shows "maxRequests rl = 5 \<Longrightarrow> windowMs rl = 1000 \<Longrightarrow>
     length (requests rl) \<le> 5 \<Longrightarrow> length (requests rl) \<le> k \<Longrightarrow> t0 \<le> now \<Longrightarrow>
     (length (requests rl) = k \<and> (\<forall>t \<in> set (requests rl). t0 \<le> t)) \<or> t0 + 1000 \<le> now \<Longrightarrow>
     \<exists>rl' now'. acquire_seq timer gs rl now = Some (rl', now')
        \<and> length (requests rl') \<le> 5
        \<and> ((length (requests rl') = k + length gs \<and> (\<forall>t \<in> set (requests rl'). t0 \<le> t))
             \<or> t0 + 1000 \<le> now')
        \<and> (k + length gs \<le> 5 \<longrightarrow> now' = now + int (sum_list gs))"
proof (induction gs arbitrary: rl now k)
  case Nil
  then show ?case by simp
next
  case (Cons g gs)
  from scenario_step[OF p Cons.prems, of g]
  obtain rl1 now1 where a: "acquire timer rl (now + int g) = Some (rl1, now1)"
    and m: "maxRequests rl1 = 5" and w: "windowMs rl1 = 1000"
    and l5: "length (requests rl1) \<le> 5" and lk: "length (requests rl1) \<le> Suc k"
    and t: "t0 \<le> now1"
    and d: "(length (requests rl1) = Suc k \<and> (\<forall>t \<in> set (requests rl1). t0 \<le> t)) \<or> t0 + 1000 \<le> now1"
    and i: "k < 5 \<longrightarrow> now1 = now + int g"
    by blast
  from Cons.IH[OF m w l5 lk t d]
  obtain rl' now' where s: "acquire_seq timer gs rl1 now1 = Some (rl', now')"
    and l5': "length (requests rl') \<le> 5"
    and d': "(length (requests rl') = Suc k + length gs \<and> (\<forall>t \<in> set (requests rl'). t0 \<le> t))
             \<or> t0 + 1000 \<le> now'"
    and i': "Suc k + length gs \<le> 5 \<longrightarrow> now' = now1 + int (sum_list gs)"
    by blast
  show ?case
    using a s l5' d' i i' by (intro exI[of _ rl'] exI[of _ now']) auto
qed

lemma ten_calls:
  assumes p: "punctual timer" and n: "length gs = 10"
  shows "\<exists>rl' now'. acquire_seq timer gs (RateLimiter_new 5 1000) t0 = Some (rl', now')
           \<and> t0 + 1000 \<le> now'"
  using scenario_run[OF p, of "RateLimiter_new 5 1000" 0 t0 t0 gs] n
  by (auto simp: RateLimiter_new_def)

lemma first_five_calls:
  assumes p: "punctual timer" and n: "length gs \<le> 5"
  shows "\<exists>rl'. acquire_seq timer gs (RateLimiter_new 5 1000) t0 = Some (rl', t0 + int (sum_list gs))"
  using scenario_run[OF p, of "RateLimiter_new 5 1000" 0 t0 t0 gs] n
  by (auto simp: RateLimiter_new_def)

text \<open>What a call that returns has done, by induction on the recursion of \<open>acquire\<close>:
  it returns at a time \<open>now'\<close> not before the call, at which fewer than \<open>maxRequests\<close> of
  the recorded grants are younger than \<open>windowMs\<close>, and the window is then these grants and
  \<open>now'\<close>.\<close>

lemma prune_prune:
  "now \<le> now' \<Longrightarrow> prune (rl\<lparr>requests := prune rl now\<rparr>) now' = prune rl now'"
  by (auto simp: prune_def intro!: filter_cong)

lemma acquire_returns_aux:
  assumes "acquire timer rl now = Some y"
  shows "steady timer \<longrightarrow>
     now \<le> snd y \<and> fst y = rl\<lparr>requests := prune rl (snd y) @ [snd y]\<rparr>
     \<and> int (length (prune rl (snd y))) < maxRequests rl"
proof (rule acquire.raw_induct[where P = "\<lambda>timer rl now y. steady timer \<longrightarrow>
     now \<le> snd y \<and> fst y = rl\<lparr>requests := prune rl (snd y) @ [snd y]\<rparr>
     \<and> int (length (prune rl (snd y))) < maxRequests rl", OF _ assms], goal_cases)
  case (1 acquire' timer rl now y)
  note hyps = "1"(2) and IH = "1"(1)
  show ?case
  proof
    assume st: "steady timer"
    let ?kept = "prune rl now"
    show "now \<le> snd y \<and> fst y = rl\<lparr>requests := prune rl (snd y) @ [snd y]\<rparr>
       \<and> int (length (prune rl (snd y))) < maxRequests rl"
    proof (cases "maxRequests rl \<le> int (length ?kept)")
      case False
      with hyps show ?thesis by (auto simp: Let_def)
    next
      case True
      define now1 where "now1 = (case ?kept of [] \<Rightarrow> timer now 0
                                  | oldest # others \<Rightarrow> timer now (windowMs rl - (now - oldest)))"
      have call: "acquire' timer (rl\<lparr>requests := ?kept\<rparr>) now1 = Some y"
        using hyps True by (simp add: Let_def now1_def split: list.splits)
      have le: "now \<le> now1"
      proof (cases ?kept)
        case Nil
        then show ?thesis using st[unfolded steady_def, rule_format, of now 0] by (simp add: now1_def)
      next
        case (Cons oldest others)
        then have "oldest \<in> set ?kept" by simp
        then have "0 < windowMs rl - (now - oldest)" by (simp add: prune_def)
        then show ?thesis
          using st[unfolded steady_def, rule_format, of now "windowMs rl - (now - oldest)"] Cons
          by (simp add: now1_def max_def)
      qed
      from IH[OF call] st
      have ih: "now1 \<le> snd y"
        "fst y = (rl\<lparr>requests := ?kept\<rparr>)\<lparr>requests := prune (rl\<lparr>requests := ?kept\<rparr>) (snd y) @ [snd y]\<rparr>"
        "int (length (prune (rl\<lparr>requests := ?kept\<rparr>) (snd y))) < maxRequests (rl\<lparr>requests := ?kept\<rparr>)"
        by simp_all
      have pp: "prune (rl\<lparr>requests := ?kept\<rparr>) (snd y) = prune rl (snd y)"
        using le ih(1) by (intro prune_prune) simp
      show ?thesis using le ih by (simp add: pp)
    qed
  qed
qed

lemma acquire_returns:
  assumes "steady timer" and "acquire timer rl now = Some (rl', now')"
  shows "now \<le> now'" and "rl' = rl\<lparr>requests := prune rl now' @ [now']\<rparr>"
    and "int (length (prune rl now')) < maxRequests rl"
  using acquire_returns_aux[OF assms(2)] assms(1) by simp_all


text \<open>The scenario again, now for any timer that does not run backwards: whenever the
  calls return, a sixth grant is not made before 1000 ms have passed.\<close>

lemma scenario_step_returned:
  assumes st: "steady timer"
    and m: "maxRequests rl = 5" and w: "windowMs rl = 1000"
    and lenk: "length (requests rl) \<le> k" and t0: "t0 \<le> now"
    and inv: "(length (requests rl) = k \<and> (\<forall>t \<in> set (requests rl). t0 \<le> t)) \<or> t0 + 1000 \<le> now"
    and ret: "acquire timer rl (now + int g) = Some (rl', now')"
  shows "maxRequests rl' = 5" and "windowMs rl' = 1000"
    and "length (requests rl') \<le> Suc k" and "length (requests rl') \<le> 5" and "t0 \<le> now'"
    and "(length (requests rl') = Suc k \<and> (\<forall>t \<in> set (requests rl'). t0 \<le> t))
         \<or> t0 + 1000 \<le> now'"
proof -
  note r = acquire_returns[OF st ret]
  have le: "now \<le> now'" using r(1) by simp
  have lp: "length (prune rl now') \<le> length (requests rl)" by (rule length_prune)
  show "maxRequests rl' = 5" "windowMs rl' = 1000" using r(2) m w by simp_all
  show "length (requests rl') \<le> Suc k" using r(2) lp lenk by simp
  show "length (requests rl') \<le> 5" using r(2) r(3) m by simp
  show "t0 \<le> now'" using le t0 by simp
  show "(length (requests rl') = Suc k \<and> (\<forall>t \<in> set (requests rl'). t0 \<le> t))
         \<or> t0 + 1000 \<le> now'"
  proof (cases "t0 + 1000 \<le> now'")
    case True then show ?thesis by simp
  next
    case False
    with inv le have a: "length (requests rl) = k" and b: "\<forall>t \<in> set (requests rl). t0 \<le> t"
      by auto
    have "prune rl now' = requests rl"
      unfolding prune_def using b False w by (auto simp: filter_id_conv)
    then show ?thesis using a b r(2) le t0 by simp
  qed
qed

lemma scenario_run_returned:
  assumes st: "steady timer"
  shows "maxRequests rl = 5 \<Longrightarrow> windowMs rl = 1000 \<Longrightarrow> length (requests rl) \<le> k \<Longrightarrow>
     t0 \<le> now \<Longrightarrow>
     (length (requests rl) = k \<and> (\<forall>t \<in> set (requests rl). t0 \<le> t)) \<or> t0 + 1000 \<le> now \<Longrightarrow>
     acquire_seq timer gs rl now = Some (rl', now') \<Longrightarrow>
     (gs \<noteq> [] \<longrightarrow> length (requests rl') \<le> 5)
     \<and> ((length (requests rl') = k + length gs \<and> (\<forall>t \<in> set (requests rl'). t0 \<le> t))
          \<or> t0 + 1000 \<le> now')"
proof (induction gs arbitrary: rl now k)
  case Nil
  then show ?case by simp
next
  case (Cons g gs)
  from Cons.prems(6) obtain rl1 now1 where a: "acquire timer rl (now + int g) = Some (rl1, now1)"
    and s: "acquire_seq timer gs rl1 now1 = Some (rl', now')"
    by (auto split: option.splits)
  note step = scenario_step_returned[OF st Cons.prems(1-5) a]
  from Cons.IH[OF step(1) step(2) step(3) step(5) step(6) s]
  have ih: "gs \<noteq> [] \<longrightarrow> length (requests rl') \<le> 5"
    "(length (requests rl') = Suc k + length gs \<and> (\<forall>t \<in> set (requests rl'). t0 \<le> t))
          \<or> t0 + 1000 \<le> now'"
    by simp_all
  have "length (requests rl') \<le> 5"
  proof (cases gs)
    case Nil
    with s step(4) show ?thesis by simp
  next
    case (Cons x xs)
    with ih(1) show ?thesis by simp
  qed
  with ih(2) show ?case by simp
qed

lemma ten_calls_returned:
  assumes st: "steady timer" and n: "length gs = 10"
    and r: "acquire_seq timer gs (RateLimiter_new 5 1000) t0 = Some (rl', now')"
  shows "t0 + 1000 \<le> now'"
proof -
  have "gs \<noteq> []" using n by auto
  with scenario_run_returned[OF st, of "RateLimiter_new 5 1000" 0 t0 t0 gs rl' now'] r n
  show ?thesis by (auto simp: RateLimiter_new_def)
qed

lemma punctual_exact_timer: "punctual exact_timer"
  by (simp add: punctual_def exact_timer_def)

lemma steady_exact_timer: "steady exact_timer"
  by (simp add: steady_def exact_timer_def)

text \<open>
  C3. \<open>acquire\<close> first keeps exactly the grants \<open>t\<close> with \<open>now - t < windowMs\<close>. If fewer
  than \<open>maxRequests\<close> remain, it appends \<open>now\<close> and resolves at \<open>now\<close>. Otherwise, with
  \<open>oldest\<close> the first grant kept, it sets a timer for \<open>windowMs - (now - oldest)\<close> and runs
  again on the pruned window when the timer fires; if timers never fire early and the
  window never held more than \<open>maxRequests\<close> grants, that second pass resolves. Whenever a
  call resolves (timers not running backwards), it does so at a time at which fewer than
  \<open>maxRequests\<close> recorded grants are younger than \<open>windowMs\<close>, and records that time. Ten
  sequential calls on \<open>RateLimiter(5, 1000)\<close>, whatever time the caller spends between them,
  end at least 1000 ms after the start if they resolve, and they do resolve when timers
  never fire early; the first five resolve at the moment they are called. \<open>reset\<close> empties
  the window and changes nothing else.
\<close>

theorem C3_rate_limiter:
  "set (prune rl now) = {t \<in> set (requests rl). now - t < windowMs rl}
   \<and> (int (length (prune rl now)) < maxRequests rl \<longrightarrow>
         acquire timer rl now = Some (rl\<lparr>requests := prune rl now @ [now]\<rparr>, now))
   \<and> (maxRequests rl \<le> int (length (prune rl now)) \<and> prune rl now = oldest # others \<longrightarrow>
         acquire timer rl now
           = acquire timer (rl\<lparr>requests := prune rl now\<rparr>)
               (timer now (windowMs rl - (now - oldest))))
   \<and> (punctual timer \<and> int (length (requests rl)) \<le> maxRequests rl
        \<and> maxRequests rl \<le> int (length (prune rl now)) \<and> prune rl now = oldest # others \<longrightarrow>
         (\<exists>rl'. acquire timer rl now
                  = Some (rl', timer now (windowMs rl - (now - oldest)))))
   \<and> (steady timer \<and> acquire timer rl now = Some (rl1, now1) \<longrightarrow>
         now \<le> now1 \<and> rl1 = rl\<lparr>requests := prune rl now1 @ [now1]\<rparr>
         \<and> int (length (prune rl now1)) < maxRequests rl)
   \<and> (steady timer \<and> length gaps = 10
        \<and> acquire_seq timer gaps (RateLimiter_new 5 1000) t0 = Some (rl10, now10) \<longrightarrow>
         1000 \<le> now10 - t0)
   \<and> (punctual timer \<and> length gaps = 10 \<longrightarrow>
         (\<exists>rl' now'. acquire_seq timer gaps (RateLimiter_new 5 1000) t0 = Some (rl', now')
                      \<and> 1000 \<le> now' - t0))
   \<and> (punctual timer \<and> length gaps5 \<le> 5 \<longrightarrow>
         (\<exists>rl'. acquire_seq timer gaps5 (RateLimiter_new 5 1000) t0
                  = Some (rl', t0 + int (sum_list gaps5))))
   \<and> reset rl = rl\<lparr>requests := []\<rparr>"
proof (intro conjI impI)
  show "set (prune rl now) = {t \<in> set (requests rl). now - t < windowMs rl}"
    by (auto simp: prune_def)
  show "acquire timer rl now = Some (rl\<lparr>requests := prune rl now @ [now]\<rparr>, now)"
    if "int (length (prune rl now)) < maxRequests rl"
    using that by (rule acquire_immediate)
  show "acquire timer rl now
           = acquire timer (rl\<lparr>requests := prune rl now\<rparr>)
               (timer now (windowMs rl - (now - oldest)))"
    if "maxRequests rl \<le> int (length (prune rl now)) \<and> prune rl now = oldest # others"
    using that acquire_wait[of rl now oldest others timer] by blast
  show "\<exists>rl'. acquire timer rl now = Some (rl', timer now (windowMs rl - (now - oldest)))"
    if "punctual timer \<and> int (length (requests rl)) \<le> maxRequests rl
        \<and> maxRequests rl \<le> int (length (prune rl now)) \<and> prune rl now = oldest # others"
    using that acquire_after_wait(1)[of timer rl now oldest others] by blast
  show "\<exists>rl' now'. acquire_seq timer gaps (RateLimiter_new 5 1000) t0 = Some (rl', now')
                      \<and> 1000 \<le> now' - t0"
    if "punctual timer \<and> length gaps = 10"
    using that ten_calls[of timer gaps t0] by fastforce
  show "\<exists>rl'. acquire_seq timer gaps5 (RateLimiter_new 5 1000) t0
                  = Some (rl', t0 + int (sum_list gaps5))"
    if "punctual timer \<and> length gaps5 \<le> 5"
    using that first_five_calls[of timer gaps5 t0] by blast
  show "reset rl = rl\<lparr>requests := []\<rparr>" by (simp add: reset_def)
  show "1000 \<le> now10 - t0"
    if "steady timer \<and> length gaps = 10
        \<and> acquire_seq timer gaps (RateLimiter_new 5 1000) t0 = Some (rl10, now10)"
    using that ten_calls_returned[of timer gaps t0 rl10 now10] by simp
next
  assume a: "steady timer \<and> acquire timer rl now = Some (rl1, now1)"
  then have st: "steady timer" and r: "acquire timer rl now = Some (rl1, now1)" by simp_all
  show "now \<le> now1" by (rule acquire_returns(1)[OF st r])
  show "rl1 = rl\<lparr>requests := prune rl now1 @ [now1]\<rparr>" by (rule acquire_returns(2)[OF st r])
  show "int (length (prune rl now1)) < maxRequests rl" by (rule acquire_returns(3)[OF st r])
qed

theorem C3_rate_limiter_witness:
  "punctual exact_timer \<and> steady exact_timer
   \<and> acquire exact_timer (RateLimiter_new 5 1000) 0
       = Some (\<lparr>maxRequests = 5, windowMs = 1000, requests = [0]\<rparr>, 0)
   \<and> acquire exact_timer \<lparr>maxRequests = 5, windowMs = 1000, requests = [0, 0, 0, 0, 0]\<rparr> 500
       = Some (\<lparr>maxRequests = 5, windowMs = 1000, requests = [1000]\<rparr>, 1000)
   \<and> acquire_seq exact_timer [0, 0, 0, 0, 0, 0, 0, 0, 0, 0] (RateLimiter_new 5 1000) 0
       = Some (\<lparr>maxRequests = 5, windowMs = 1000, requests = [1000, 1000, 1000, 1000, 1000]\<rparr>, 1000)
   \<and> acquire_seq exact_timer [0, 0, 0, 0, 0] (RateLimiter_new 5 1000) 0
       = Some (\<lparr>maxRequests = 5, windowMs = 1000, requests = [0, 0, 0, 0, 0]\<rparr>, 0)
   \<and> requests (reset \<lparr>maxRequests = 5, windowMs = 1000, requests = [0, 0, 0, 0, 0]\<rparr>) = []"
proof -
  let ?new = "RateLimiter_new 5 1000"
  let ?full = "\<lparr>maxRequests = 5, windowMs = 1000, requests = [0, 0, 0, 0, 0]\<rparr>"
  let ?after = "\<lparr>maxRequests = 5, windowMs = 1000, requests = [1000]\<rparr>"
  let ?last = "\<lparr>maxRequests = 5, windowMs = 1000, requests = [1000, 1000, 1000, 1000, 1000]\<rparr>"
  let ?ten = "[0, 0, 0, 0, 0, 0, 0, 0, 0, 0] :: nat list"
  let ?five = "[0, 0, 0, 0, 0] :: nat list"
  note p = punctual_exact_timer and st = steady_exact_timer
  note first = C3_rate_limiter[where rl = ?new and now = 0 and timer = exact_timer
      and oldest = 0 and others = "[]" and ?rl1.0 = ?after and ?now1.0 = 1000
      and gaps = ?ten and ?t0.0 = 0 and ?rl10.0 = ?last and ?now10.0 = 1000 and ?gaps5.0 = ?five]
  note sixth = C3_rate_limiter[where rl = ?full and now = 500 and timer = exact_timer
      and oldest = 0 and others = "[0, 0, 0, 0]" and ?rl1.0 = ?after and ?now1.0 = 1000
      and gaps = ?ten and ?t0.0 = 0 and ?rl10.0 = ?last and ?now10.0 = 1000 and ?gaps5.0 = ?five]
  note immediate = first[THEN conjunct2, THEN conjunct1, rule_format]
  note waits = sixth[THEN conjunct2, THEN conjunct2, THEN conjunct2, THEN conjunct1, rule_format]
  note returned = sixth[THEN conjunct2, THEN conjunct2, THEN conjunct2, THEN conjunct2,
      THEN conjunct1, rule_format]
  note ten_returned = sixth[THEN conjunct2, THEN conjunct2, THEN conjunct2, THEN conjunct2,
      THEN conjunct2, THEN conjunct1, rule_format]
  note ten = sixth[THEN conjunct2, THEN conjunct2, THEN conjunct2, THEN conjunct2,
      THEN conjunct2, THEN conjunct2, THEN conjunct1, rule_format]
  note five = sixth[THEN conjunct2, THEN conjunct2, THEN conjunct2, THEN conjunct2,
      THEN conjunct2, THEN conjunct2, THEN conjunct2, THEN conjunct1, rule_format]
  note cleared = sixth[THEN conjunct2, THEN conjunct2, THEN conjunct2, THEN conjunct2,
      THEN conjunct2, THEN conjunct2, THEN conjunct2, THEN conjunct2]
  have room: "int (length (prune ?new 0)) < maxRequests ?new"
    by (simp add: prune_def RateLimiter_new_def)
  have e1: "acquire exact_timer ?new 0
       = Some (\<lparr>maxRequests = 5, windowMs = 1000, requests = [0]\<rparr>, 0)"
    unfolding immediate[OF room] by (simp add: prune_def RateLimiter_new_def)
  have full: "punctual exact_timer \<and> int (length (requests ?full)) \<le> maxRequests ?full
      \<and> maxRequests ?full \<le> int (length (prune ?full 500)) \<and> prune ?full 500 = 0 # [0, 0, 0, 0]"
    using p by (simp add: prune_def)
  from waits[OF full] obtain rl' where w: "acquire exact_timer ?full 500
      = Some (rl', exact_timer 500 (windowMs ?full - (500 - 0)))"
    by blast
  have e2: "acquire exact_timer ?full 500 = Some (?after, 1000)"
    by code_simp
  from returned[OF conjI[OF st e2]]
  have "?after = ?full\<lparr>requests := prune ?full 1000 @ [1000]\<rparr>"
    by blast
  have e3: "acquire_seq exact_timer ?ten ?new 0 = Some (?last, 1000)"
    by code_simp
  have len: "length ?ten = 10" and len5: "length ?five \<le> 5" by simp_all
  have late: "(1000::int) \<le> 1000 - 0"
    by (rule ten_returned[OF conjI[OF st conjI[OF len e3]]])
  have "\<exists>rl' now'. acquire_seq exact_timer ?ten ?new 0 = Some (rl', now') \<and> 1000 \<le> now' - 0"
    by (rule ten[OF conjI[OF p len]])
  have "\<exists>rl5. acquire_seq exact_timer ?five ?new 0 = Some (rl5, 0 + int (sum_list ?five))"
    by (rule five[OF conjI[OF p len5]])
  have e4: "acquire_seq exact_timer ?five ?new 0
       = Some (\<lparr>maxRequests = 5, windowMs = 1000, requests = [0, 0, 0, 0, 0]\<rparr>, 0)"
    by code_simp
  have e5: "requests (reset ?full) = []" unfolding cleared by simp
  show ?thesis using p st e1 e2 e3 e4 e5 by simp
qed

section \<open>Properties of the wallet manager\<close>

lemma HashConnectAdapter_disconnect_resolves:
  "\<exists>w'. HashConnectAdapter_disconnect w = (Inr (), w')
        \<and> (windowDefined w \<longrightarrow> localStorage w' STORAGE_KEY = None)"
  by (simp add: HashConnectAdapter_disconnect_def removeItem_def)

lemma WalletConnectAdapter_disconnect_resolves:
  "\<exists>w'. WalletConnectAdapter_disconnect w = (Inr (), w')
        \<and> (windowDefined w \<longrightarrow> localStorage w' STORAGE_KEY = None)"
  by (simp add: WalletConnectAdapter_disconnect_def removeItem_def Let_def)

lemma WalletManager_disconnect_resolved:
  "adapter_disconnect (adapter m) w = (Inr u, w') \<Longrightarrow>
   WalletManager_disconnect m w
     = (Inr (), m\<lparr>connectionInfo := JNull, invoked := invoked m @ [''disconnect'']\<rparr>, w')"
  by (simp add: WalletManager_disconnect_def note_call_def)

lemma WalletManager_disconnect_rejected:
  "adapter_disconnect (adapter m) w = (Inl e, w') \<Longrightarrow>
   WalletManager_disconnect m w = (Inl e, m\<lparr>invoked := invoked m @ [''disconnect'']\<rparr>, w')"
  by (simp add: WalletManager_disconnect_def note_call_def)

text \<open>
  C4. When the adapter's \<open>isAvailable()\<close> is false, \<open>connect()\<close> and \<open>connectHashPack()\<close>
  reject at once: the only adapter method called is \<open>isAvailable\<close>, and the connection
  record, the adapter and the environment are unchanged. When it is true, \<open>connect()\<close>
  calls the adapter's \<open>connect\<close>; the record it resolves with becomes the manager's
  connection record and is returned, and a rejection is passed on with the record
  unchanged.
\<close>

theorem C4_connect:
  "(\<not> adapter_isAvailable (adapter m) w \<longrightarrow>
      WalletManager_connect m w
        = (Inl (Error ''No wallet provider available for the configured adapter''),
           m\<lparr>invoked := invoked m @ [''isAvailable'']\<rparr>, w)
      \<and> connectHashPack m w = WalletManager_connect m w)
   \<and> (adapter_isAvailable (adapter m) w \<and> adapter_connect (adapter m) w = (Inr info, w') \<longrightarrow>
        WalletManager_connect m w
          = (Inr info,
             m\<lparr>connectionInfo := info, invoked := invoked m @ [''isAvailable'', ''connect'']\<rparr>,
             w')
        \<and> connectHashPack m w = WalletManager_connect m w)
   \<and> (adapter_isAvailable (adapter m) w \<and> adapter_connect (adapter m) w = (Inl e, w') \<longrightarrow>
        WalletManager_connect m w
          = (Inl e, m\<lparr>invoked := invoked m @ [''isAvailable'', ''connect'']\<rparr>, w'))"
  by (simp add: WalletManager_connect_def connectHashPack_def note_call_def)

theorem C4_connect_witness:
  "\<not> adapter_isAvailable (adapter (WalletManager_new stub_adapter)) (browser None Map.empty)
   \<and> fst (WalletManager_connect (WalletManager_new stub_adapter) (browser None Map.empty))
       = Inl (Error ''No wallet provider available for the configured adapter'')
   \<and> invoked (fst (snd (WalletManager_connect (WalletManager_new stub_adapter) (browser None Map.empty))))
       = [''isAvailable'']
   \<and> connectionInfo (fst (snd (WalletManager_connect (WalletManager_new stub_adapter) (browser None Map.empty))))
       = JNull
   \<and> adapter_isAvailable (adapter (WalletManager_new rejecting_adapter)) (browser None Map.empty)
   \<and> fst (WalletManager_connect (WalletManager_new rejecting_adapter) (browser None Map.empty))
       = Inr test_record
   \<and> connectionInfo (fst (snd (WalletManager_connect (WalletManager_new rejecting_adapter) (browser None Map.empty))))
       = test_record"
proof -
  let ?w = "browser None Map.empty"
  let ?stub = "WalletManager_new stub_adapter :: unit WalletManager"
  let ?rej = "WalletManager_new rejecting_adapter"
  have u: "\<not> adapter_isAvailable (adapter ?stub) ?w"
    by (simp add: WalletManager_new_def stub_adapter_def)
  have a: "adapter_isAvailable (adapter ?rej) ?w
           \<and> adapter_connect (adapter ?rej) ?w = (Inr test_record, ?w)"
    by (simp add: WalletManager_new_def rejecting_adapter_def)
  from C4_connect[of ?stub ?w JNull ?w "Error []"] u
  have 1: "WalletManager_connect ?stub ?w
        = (Inl (Error ''No wallet provider available for the configured adapter''),
           ?stub\<lparr>invoked := invoked ?stub @ [''isAvailable'']\<rparr>, ?w)"
    by simp
  from C4_connect[of ?rej ?w test_record ?w "Error []"] a
  have 2: "WalletManager_connect ?rej ?w
          = (Inr test_record,
             ?rej\<lparr>connectionInfo := test_record,
                invoked := invoked ?rej @ [''isAvailable'', ''connect'']\<rparr>,
             ?w)"
    by simp
  show ?thesis
    unfolding 1 2 using u a by (simp add: WalletManager_new_def)
qed

text \<open>
  C5 (as amended). \<open>disconnect()\<close> calls the adapter's \<open>disconnect\<close>. When that resolves, the
  manager's promise resolves and the connection record is cleared, so \<open>isConnected()\<close> is
  false. When it rejects, the manager's promise rejects with the same error and the
  connection record stays as it was. The \<open>disconnect\<close> of both shipped adapters resolves
  whatever the underlying provider does (and clears the storage slot in a browser), so with
  them the manager's \<open>disconnect()\<close> resolves and clears the record.
\<close>

theorem C5_disconnect:
  "(adapter_disconnect (adapter m) w = (Inr u, w') \<longrightarrow>
      WalletManager_disconnect m w
        = (Inr (), m\<lparr>connectionInfo := JNull, invoked := invoked m @ [''disconnect'']\<rparr>, w')
      \<and> \<not> isConnected (fst (snd (WalletManager_disconnect m w))))
   \<and> (adapter_disconnect (adapter m) w = (Inl e, w') \<longrightarrow>
        WalletManager_disconnect m w
          = (Inl e, m\<lparr>invoked := invoked m @ [''disconnect'']\<rparr>, w')
        \<and> connectionInfo (fst (snd (WalletManager_disconnect m w))) = connectionInfo m)
   \<and> (adapter_disconnect (adapter m) = HashConnectAdapter_disconnect
        \<or> adapter_disconnect (adapter m) = WalletConnectAdapter_disconnect \<longrightarrow>
        fst (WalletManager_disconnect m w) = Inr ()
        \<and> \<not> isConnected (fst (snd (WalletManager_disconnect m w)))
        \<and> (windowDefined w \<longrightarrow>
             localStorage (snd (snd (WalletManager_disconnect m w))) STORAGE_KEY = None))"
proof (intro conjI impI)
  assume "adapter_disconnect (adapter m) w = (Inr u, w')"
  note r = WalletManager_disconnect_resolved[OF this]
  show "WalletManager_disconnect m w
        = (Inr (), m\<lparr>connectionInfo := JNull, invoked := invoked m @ [''disconnect'']\<rparr>, w')"
    by (rule r)
  show "\<not> isConnected (fst (snd (WalletManager_disconnect m w)))"
    by (simp add: r isConnected_def)
next
  assume "adapter_disconnect (adapter m) w = (Inl e, w')"
  note r = WalletManager_disconnect_rejected[OF this]
  show "WalletManager_disconnect m w
          = (Inl e, m\<lparr>invoked := invoked m @ [''disconnect'']\<rparr>, w')"
    by (rule r)
  show "connectionInfo (fst (snd (WalletManager_disconnect m w))) = connectionInfo m"
    by (simp add: r)
next
  assume shipped: "adapter_disconnect (adapter m) = HashConnectAdapter_disconnect
        \<or> adapter_disconnect (adapter m) = WalletConnectAdapter_disconnect"
  then obtain w1 where d: "adapter_disconnect (adapter m) w = (Inr (), w1)"
    and s: "windowDefined w \<longrightarrow> localStorage w1 STORAGE_KEY = None"
    using HashConnectAdapter_disconnect_resolves[of w]
      WalletConnectAdapter_disconnect_resolves[of w] by auto
  note r = WalletManager_disconnect_resolved[OF d]
  show "fst (WalletManager_disconnect m w) = Inr ()" by (simp add: r)
  show "\<not> isConnected (fst (snd (WalletManager_disconnect m w)))"
    by (simp add: r isConnected_def)
  show "localStorage (snd (snd (WalletManager_disconnect m w))) STORAGE_KEY = None"
    if "windowDefined w" using that s by (simp add: r)
qed

theorem C5_disconnect_witness:
  "hp_disconnect checksum_hashpack = Some (Inl (Error ''Extension context invalidated''))
   \<and> fst (WalletManager_disconnect (connected_with (HashConnectAdapter sample_stringify))
            (browser (Some checksum_hashpack) (slot test_record_json))) = Inr ()
   \<and> \<not> isConnected (fst (snd (WalletManager_disconnect
            (connected_with (HashConnectAdapter sample_stringify))
            (browser (Some checksum_hashpack) (slot test_record_json)))))
   \<and> localStorage (snd (snd (WalletManager_disconnect
            (connected_with (HashConnectAdapter sample_stringify))
            (browser (Some checksum_hashpack) (slot test_record_json))))) STORAGE_KEY = None
   \<and> fst (WalletManager_disconnect (connected_with rejecting_adapter) (browser None Map.empty))
       = Inl (Error ''Session transport closed'')
   \<and> connectionInfo (fst (snd (WalletManager_disconnect (connected_with rejecting_adapter)
            (browser None Map.empty)))) = test_record"
proof -
  let ?m = "connected_with (HashConnectAdapter sample_stringify) :: unit WalletManager"
  let ?w = "browser (Some checksum_hashpack) (slot test_record_json)"
  let ?r = "connected_with rejecting_adapter"
  let ?v = "browser None Map.empty"
  have h: "adapter_disconnect (adapter ?m) = HashConnectAdapter_disconnect"
    by (simp add: connected_with_def HashConnectAdapter_def)
  have hw: "adapter_disconnect (adapter ?m) ?w = (Inr (), removeItem STORAGE_KEY ?w)"
    and win: "windowDefined ?w"
    by (simp_all add: h HashConnectAdapter_disconnect_def browser_def)
  have rj: "adapter_disconnect (adapter ?r) ?v = (Inl (Error ''Session transport closed''), ?v)"
    by (simp add: connected_with_def rejecting_adapter_def)
  note a = C5_disconnect[of ?m ?w "()" "removeItem STORAGE_KEY ?w" "Error []"]
  note b = C5_disconnect[of ?r ?v "()" ?v "Error ''Session transport closed''"]
  from a h hw win have
    "fst (WalletManager_disconnect ?m ?w) = Inr ()
     \<and> \<not> isConnected (fst (snd (WalletManager_disconnect ?m ?w)))
     \<and> localStorage (snd (snd (WalletManager_disconnect ?m ?w))) STORAGE_KEY = None"
    by blast
  moreover from b rj have
    "fst (WalletManager_disconnect ?r ?v) = Inl (Error ''Session transport closed'')
     \<and> connectionInfo (fst (snd (WalletManager_disconnect ?r ?v))) = connectionInfo ?r"
    by (simp add: connected_with_def)
  moreover have "connectionInfo ?r = test_record" by (simp add: connected_with_def)
  moreover have "hp_disconnect checksum_hashpack = Some (Inl (Error ''Extension context invalidated''))"
    by (simp add: checksum_hashpack_def)
  ultimately show ?thesis by simp
qed

text \<open>
  The claim as stated fails for an adapter whose \<open>disconnect\<close> rejects: the manager's
  \<open>disconnect()\<close> rejects with the adapter's error and the manager is still connected.
\<close>

theorem C5_counterexample:
  "isConnected (connected_with rejecting_adapter)
   \<and> fst (WalletManager_disconnect (connected_with rejecting_adapter) (browser None Map.empty))
       = Inl (Error ''Session transport closed'')
   \<and> isConnected (fst (snd (WalletManager_disconnect (connected_with rejecting_adapter)
        (browser None Map.empty))))"
  by (simp add: WalletManager_disconnect_def connected_with_def rejecting_adapter_def
        isConnected_def note_call_def test_record_def)

text \<open>
  C6 (as amended). In a browser, when the adapter has no \<open>init\<close> or its \<open>init\<close> resolves, and
  the slot then holds a non-empty string that \<open>JSON.parse\<close> rejects, \<open>init()\<close> resolves, the
  slot is removed, and the manager's connection record is what it was before (none for a
  manager that had none): the syntax error is caught inside \<open>restoreConnection\<close>, which
  returns \<open>null\<close>.
\<close>

theorem C6_restore:
  "(windowDefined w \<and> localStorage w STORAGE_KEY = Some stored \<and> stored \<noteq> []
      \<and> parse stored = None \<longrightarrow>
      restoreConnection parse m w = (JNull, m, removeItem STORAGE_KEY w)
      \<and> localStorage (removeItem STORAGE_KEY w) STORAGE_KEY = None)
   \<and> (adapter_init (adapter m) = None
        \<and> windowDefined w \<and> localStorage w STORAGE_KEY = Some stored \<and> stored \<noteq> []
        \<and> parse stored = None \<longrightarrow>
        WalletManager_init parse m w = (Inr (), m, removeItem STORAGE_KEY w)
        \<and> (connectionInfo m = JNull \<longrightarrow>
              \<not> isConnected (fst (snd (WalletManager_init parse m w)))))
   \<and> (adapter_init (adapter m) = Some init \<and> init w = (Inr u, w1)
        \<and> windowDefined w1 \<and> localStorage w1 STORAGE_KEY = Some stored \<and> stored \<noteq> []
        \<and> parse stored = None \<longrightarrow>
        WalletManager_init parse m w
          = (Inr (), m\<lparr>invoked := invoked m @ [''init'']\<rparr>, removeItem STORAGE_KEY w1)
        \<and> (connectionInfo m = JNull \<longrightarrow>
              \<not> isConnected (fst (snd (WalletManager_init parse m w)))))"
  by (simp add: restoreConnection_def WalletManager_init_def removeItem_def note_call_def
        isConnected_def)

theorem C6_restore_witness:
  "sample_parse truncated_json = None
   \<and> fst (WalletManager_init sample_parse (WalletManager_new (HashConnectAdapter sample_stringify))
            (browser (Some test_hashpack) (slot truncated_json))) = Inr ()
   \<and> \<not> isConnected (fst (snd (WalletManager_init sample_parse
            (WalletManager_new (HashConnectAdapter sample_stringify))
            (browser (Some test_hashpack) (slot truncated_json)))))
   \<and> localStorage (snd (snd (WalletManager_init sample_parse
            (WalletManager_new (HashConnectAdapter sample_stringify))
            (browser (Some test_hashpack) (slot truncated_json))))) STORAGE_KEY = None
   \<and> fst (WalletManager_init sample_parse (WalletManager_new stub_adapter)
            (browser None (slot truncated_json))) = Inr ()
   \<and> \<not> isConnected (fst (snd (WalletManager_init sample_parse (WalletManager_new stub_adapter)
            (browser None (slot truncated_json)))))
   \<and> localStorage (snd (snd (WalletManager_init sample_parse (WalletManager_new stub_adapter)
            (browser None (slot truncated_json))))) STORAGE_KEY = None"
proof -
  let ?m = "WalletManager_new (HashConnectAdapter sample_stringify) :: unit WalletManager"
  let ?w = "browser (Some test_hashpack) (slot truncated_json)"
  let ?s = "WalletManager_new stub_adapter :: unit WalletManager"
  let ?v = "browser None (slot truncated_json)"
  have p: "sample_parse truncated_json = None" and ne: "truncated_json \<noteq> []"
    by (simp_all add: sample_parse_def truncated_json_def test_record_json_def)
  have i: "adapter_init (adapter ?m) = Some (\<lambda>w. (Inr (), w))"
    by (simp add: WalletManager_new_def HashConnectAdapter_def)
  have n: "adapter_init (adapter ?s) = None"
    by (simp add: WalletManager_new_def stub_adapter_def)
  have w: "windowDefined ?w" "localStorage ?w STORAGE_KEY = Some truncated_json"
    "windowDefined ?v" "localStorage ?v STORAGE_KEY = Some truncated_json"
    by (simp_all add: browser_def slot_def)
  have c: "connectionInfo ?m = JNull" "connectionInfo ?s = JNull"
    by (simp_all add: WalletManager_new_def)
  note a = C6_restore[of ?w truncated_json sample_parse ?m "\<lambda>w. (Inr (), w)" "()" ?w]
  note b = C6_restore[of ?v truncated_json sample_parse ?s "\<lambda>w. (Inr (), w)" "()" ?v]
  from a p ne i w c have
    "WalletManager_init sample_parse ?m ?w
       = (Inr (), ?m\<lparr>invoked := invoked ?m @ [''init'']\<rparr>, removeItem STORAGE_KEY ?w)
     \<and> \<not> isConnected (fst (snd (WalletManager_init sample_parse ?m ?w)))
     \<and> localStorage (removeItem STORAGE_KEY ?w) STORAGE_KEY = None"
    by (simp add: isConnected_def)
  moreover from b p ne n w c have
    "WalletManager_init sample_parse ?s ?v = (Inr (), ?s, removeItem STORAGE_KEY ?v)
     \<and> \<not> isConnected (fst (snd (WalletManager_init sample_parse ?s ?v)))
     \<and> localStorage (removeItem STORAGE_KEY ?v) STORAGE_KEY = None"
    by (simp add: isConnected_def)
  ultimately show ?thesis using p by (simp add: isConnected_def WalletManager_new_def)
qed

text \<open>
  The claim as stated fails for the empty string, which \<open>JSON.parse\<close> rejects: it is
  falsy, so \<open>restoreConnection\<close> neither parses nor removes it, and the slot still holds
  it after \<open>init()\<close>.
\<close>

theorem C6_counterexample:
  "sample_parse [] = None
   \<and> fst (WalletManager_init sample_parse (WalletManager_new (HashConnectAdapter sample_stringify))
            (browser (Some test_hashpack) (slot []))) = Inr ()
   \<and> localStorage (snd (snd (WalletManager_init sample_parse
            (WalletManager_new (HashConnectAdapter sample_stringify))
            (browser (Some test_hashpack) (slot []))))) STORAGE_KEY = Some []"
  by (simp add: sample_parse_def test_record_json_def WalletManager_init_def
        WalletManager_new_def HashConnectAdapter_def restoreConnection_def browser_def
        slot_def note_call_def)

lemma HashConnectAdapter_connect_resolved:
  assumes "HashConnectAdapter_connect stringify w = (Inr info, w')"
  shows "\<exists>hp result first others.
           waitForHashPack w = Some hp \<and> hp_connect hp = Some (Inr result)
           \<and> accountIds result = Some (first # others)
           \<and> info = JObject
                 [(''accountId'', JString first),
                  (''network'', JString (or_testnet (result_network result))),
                  (''publicKey'', optional_string (result_publicKey result))]"
  using assms
  by (auto simp: HashConnectAdapter_connect_def Let_def
      split: option.splits sum.splits list.splits if_splits)

lemma WalletConnectAdapter_connect_resolved:
  assumes "WalletConnectAdapter_connect stringify w = (Inr info, w')"
  shows "\<exists>provider accounts accountStr.
           wc_provider w = Some provider \<and> wc_connect provider = Inr accounts
           \<and> first_account accounts = Some accountStr
           \<and> info = JObject
                 [(''accountId'', optional_string (part_at (split_on CHR '':'' accountStr) 2)),
                  (''network'',
                   JString (if part_at (split_on CHR '':'' accountStr) 1 = Some ''mainnet''
                            then ''mainnet'' else ''testnet''))]"
  using assms
  by (auto simp: WalletConnectAdapter_connect_def Let_def
      split: option.splits sum.splits if_splits)

text \<open>
  C7 (as amended). A manager holds one connection record, in a single field: a record
  adopted by \<open>connect()\<close> or restored from storage replaces whatever was held. No path
  checks the record against the Connection Record shape. A record from
  \<open>HashConnectAdapter.connect\<close> carries the first account id the wallet returned, as
  returned, the network the wallet reported (\<open>testnet\<close> when it reported none), and the
  public key if any. A record from \<open>WalletConnectAdapter.connect\<close> carries the third
  colon-separated part of the first session account (\<open>undefined\<close> when there are fewer
  parts) and a network that is \<open>mainnet\<close> or \<open>testnet\<close>. \<open>restoreConnection\<close> adopts
  whatever value \<open>JSON.parse\<close> yields for a non-empty stored string.
\<close>

theorem C7_connection_record:
  "(adapter_isAvailable (adapter m) w \<and> adapter_connect (adapter m) w = (Inr info, w') \<longrightarrow>
      getConnectionInfo (fst (snd (WalletManager_connect m w))) = info)
   \<and> (HashConnectAdapter_connect stringify hw = (Inr hinfo, hw') \<longrightarrow>
        (\<exists>hp result first others.
           waitForHashPack hw = Some hp \<and> hp_connect hp = Some (Inr result)
           \<and> accountIds result = Some (first # others)
           \<and> hinfo = JObject
                 [(''accountId'', JString first),
                  (''network'', JString (or_testnet (result_network result))),
                  (''publicKey'', optional_string (result_publicKey result))]))
   \<and> (WalletConnectAdapter_connect stringify cw = (Inr cinfo, cw') \<longrightarrow>
        (\<exists>provider accounts accountStr.
           wc_provider cw = Some provider \<and> wc_connect provider = Inr accounts
           \<and> first_account accounts = Some accountStr
           \<and> get_property cinfo ''accountId''
               = optional_string (part_at (split_on CHR '':'' accountStr) 2))
        \<and> (get_property cinfo ''network'' = JString ''testnet''
            \<or> get_property cinfo ''network'' = JString ''mainnet''))
   \<and> (windowDefined rw \<and> localStorage rw STORAGE_KEY = Some stored \<and> stored \<noteq> []
        \<and> parse stored = Some v \<longrightarrow>
        restoreConnection parse rm rw = (v, rm\<lparr>connectionInfo := v\<rparr>, rw))"
proof (intro conjI impI)
  assume "adapter_isAvailable (adapter m) w \<and> adapter_connect (adapter m) w = (Inr info, w')"
  then show "getConnectionInfo (fst (snd (WalletManager_connect m w))) = info"
    by (simp add: WalletManager_connect_def getConnectionInfo_def)
next
  assume "HashConnectAdapter_connect stringify hw = (Inr hinfo, hw')"
  then show "\<exists>hp result first others.
           waitForHashPack hw = Some hp \<and> hp_connect hp = Some (Inr result)
           \<and> accountIds result = Some (first # others)
           \<and> hinfo = JObject
                 [(''accountId'', JString first),
                  (''network'', JString (or_testnet (result_network result))),
                  (''publicKey'', optional_string (result_publicKey result))]"
    by (rule HashConnectAdapter_connect_resolved)
next
  assume c: "WalletConnectAdapter_connect stringify cw = (Inr cinfo, cw')"
  from WalletConnectAdapter_connect_resolved[OF c]
  obtain provider accounts accountStr where p: "wc_provider cw = Some provider"
    and a: "wc_connect provider = Inr accounts" and f: "first_account accounts = Some accountStr"
    and i: "cinfo = JObject
                 [(''accountId'', optional_string (part_at (split_on CHR '':'' accountStr) 2)),
                  (''network'',
                   JString (if part_at (split_on CHR '':'' accountStr) 1 = Some ''mainnet''
                            then ''mainnet'' else ''testnet''))]"
    by blast
  from p a f show "\<exists>provider accounts accountStr.
           wc_provider cw = Some provider \<and> wc_connect provider = Inr accounts
           \<and> first_account accounts = Some accountStr
           \<and> get_property cinfo ''accountId''
               = optional_string (part_at (split_on CHR '':'' accountStr) 2)"
    by (intro exI[of _ provider] exI[of _ accounts] exI[of _ accountStr]) (simp add: i)
  show "get_property cinfo ''network'' = JString ''testnet''
            \<or> get_property cinfo ''network'' = JString ''mainnet''"
    by (simp add: i)
next
  assume "windowDefined rw \<and> localStorage rw STORAGE_KEY = Some stored \<and> stored \<noteq> []
        \<and> parse stored = Some v"
  then show "restoreConnection parse rm rw = (v, rm\<lparr>connectionInfo := v\<rparr>, rw)"
    by (simp add: restoreConnection_def)
qed

theorem C7_connection_record_witness:
  "fst (WalletManager_connect (WalletManager_new (HashConnectAdapter sample_stringify))
          (browser (Some test_hashpack) Map.empty)) = Inr test_record
   \<and> getConnectionInfo (fst (snd (WalletManager_connect
          (WalletManager_new (HashConnectAdapter sample_stringify))
          (browser (Some test_hashpack) Map.empty)))) = test_record
   \<and> has_record_shape test_record
   \<and> fst (WalletConnectAdapter_connect sample_stringify paired_world)
       = Inr (JObject [(''accountId'', JString ''0.0.123''), (''network'', JString ''testnet'')])
   \<and> fst (restoreConnection sample_parse (connected_with stub_adapter)
          (browser None (slot test_record_json))) = test_record"
proof -
  let ?m = "WalletManager_new (HashConnectAdapter sample_stringify) :: unit WalletManager"
  let ?w = "browser (Some test_hashpack) Map.empty"
  let ?w' = "setItem STORAGE_KEY (sample_stringify test_record) ?w"
  let ?c = "JObject [(''accountId'', JString ''0.0.123''), (''network'', JString ''testnet'')]"
  let ?cw' = "setItem STORAGE_KEY (sample_stringify ?c) paired_world"
  let ?rm = "connected_with stub_adapter :: unit WalletManager"
  let ?rw = "browser None (slot test_record_json)"
  have h: "HashConnectAdapter_connect sample_stringify ?w = (Inr test_record, ?w')"
    by (simp add: HashConnectAdapter_connect_def waitForHashPack_def browser_def
          test_hashpack_def test_record_def Let_def)
  have a: "adapter_isAvailable (adapter ?m) ?w
           \<and> adapter_connect (adapter ?m) ?w = (Inr test_record, ?w')"
    using h by (simp add: WalletManager_new_def HashConnectAdapter_def
          HashConnectAdapter_isAvailable_def browser_def)
  have c: "WalletConnectAdapter_connect sample_stringify paired_world = (Inr ?c, ?cw')"
    by (simp add: WalletConnectAdapter_connect_def paired_world_def part_at_def Let_def)
  have r: "windowDefined ?rw \<and> localStorage ?rw STORAGE_KEY = Some test_record_json
           \<and> test_record_json \<noteq> [] \<and> sample_parse test_record_json = Some test_record"
    by (simp add: browser_def slot_def sample_parse_def test_record_json_def)
  note C7 = C7_connection_record[of ?m ?w test_record ?w' sample_stringify ?w test_record ?w'
      paired_world ?c ?cw' ?rw test_record_json sample_parse test_record ?rm]
  from C7 a have 1: "getConnectionInfo (fst (snd (WalletManager_connect ?m ?w))) = test_record"
    by blast
  from C7 r have 2: "restoreConnection sample_parse ?rm ?rw
      = (test_record, ?rm\<lparr>connectionInfo := test_record\<rparr>, ?rw)"
    by blast
  have 3: "fst (WalletManager_connect ?m ?w) = Inr test_record"
    using a by (simp add: WalletManager_connect_def)
  have 4: "has_record_shape test_record"
    by (simp add: has_record_shape_def test_record_def isValidAccountId_def is_digit_def)
  show ?thesis using 1 2 3 4 c by simp
qed

text \<open>
  The claim as stated fails: a wallet that reports its account in the checksum form
  \<open>0.0.123-vfmkw\<close> on \<open>previewnet\<close> is connected, and the manager holds a record whose
  account id does not match \<open>^0\.0\.\d+$\<close> and whose network is neither \<open>testnet\<close> nor
  \<open>mainnet\<close>.
\<close>

theorem C7_counterexample:
  "fst (WalletManager_connect (WalletManager_new (HashConnectAdapter sample_stringify))
          (browser (Some checksum_hashpack) Map.empty))
     = Inr (JObject [(''accountId'', JString ''0.0.123-vfmkw''),
                     (''network'', JString ''previewnet''),
                     (''publicKey'', JUndefined)])
   \<and> getConnectionInfo (fst (snd (WalletManager_connect
          (WalletManager_new (HashConnectAdapter sample_stringify))
          (browser (Some checksum_hashpack) Map.empty))))
     = JObject [(''accountId'', JString ''0.0.123-vfmkw''),
                (''network'', JString ''previewnet''),
                (''publicKey'', JUndefined)]
   \<and> \<not> isValidAccountId ''0.0.123-vfmkw''
   \<and> \<not> has_record_shape (getConnectionInfo (fst (snd (WalletManager_connect
          (WalletManager_new (HashConnectAdapter sample_stringify))
          (browser (Some checksum_hashpack) Map.empty)))))"
  by (simp add: WalletManager_connect_def WalletManager_new_def HashConnectAdapter_def
        HashConnectAdapter_isAvailable_def HashConnectAdapter_connect_def waitForHashPack_def
        browser_def checksum_hashpack_def getConnectionInfo_def note_call_def Let_def
        has_record_shape_def isValidAccountId_def is_digit_def)

text \<open>
  C10. While the connection record is \<open>null\<close> (as in a new manager, or after a resolved
  \<open>disconnect()\<close>), \<open>requestTransaction(bytes)\<close> rejects with \<open>Wallet not connected\<close>, calls
  no adapter method and changes neither the manager nor the environment. With a record
  present it passes the bytes to the adapter's \<open>requestTransaction\<close> and returns its
  outcome; the connection record is untouched.
\<close>

theorem C10_requestTransaction:
  "(connectionInfo m = JNull \<longrightarrow>
      \<not> isConnected m
      \<and> WalletManager_requestTransaction transaction m w
          = (Inl (Error ''Wallet not connected''), m, w))
   \<and> (connectionInfo m \<noteq> JNull \<longrightarrow>
        isConnected m
        \<and> WalletManager_requestTransaction transaction m w
            = (fst (adapter_requestTransaction (adapter m) transaction w),
               m\<lparr>invoked := invoked m @ [''requestTransaction'']\<rparr>,
               snd (adapter_requestTransaction (adapter m) transaction w)))
   \<and> connectionInfo (WalletManager_new a) = JNull
   \<and> (adapter_disconnect (adapter m) w = (Inr u, w') \<longrightarrow>
        connectionInfo (fst (snd (WalletManager_disconnect m w))) = JNull)"
  by (simp add: WalletManager_requestTransaction_def isConnected_def note_call_def
        WalletManager_new_def WalletManager_disconnect_def split: prod.splits)

theorem C10_requestTransaction_witness:
  "fst (WalletManager_requestTransaction [1, 2, 3] (WalletManager_new rejecting_adapter)
          (browser None Map.empty)) = Inl (Error ''Wallet not connected'')
   \<and> invoked (fst (snd (WalletManager_requestTransaction [1, 2, 3]
          (WalletManager_new rejecting_adapter) (browser None Map.empty)))) = []
   \<and> fst (WalletManager_requestTransaction [1, 2, 3] (connected_with rejecting_adapter)
          (browser None Map.empty)) = Inr [1, 2, 3]
   \<and> invoked (fst (snd (WalletManager_requestTransaction [1, 2, 3]
          (connected_with rejecting_adapter) (browser None Map.empty))))
       = [''requestTransaction'']
   \<and> connectionInfo (fst (snd (WalletManager_disconnect
          (connected_with (HashConnectAdapter sample_stringify))
          (browser (Some test_hashpack) Map.empty)))) = JNull"
proof -
  let ?n = "WalletManager_new rejecting_adapter"
  let ?c = "connected_with rejecting_adapter"
  let ?h = "connected_with (HashConnectAdapter sample_stringify) :: unit WalletManager"
  let ?w = "browser None Map.empty"
  let ?v = "browser (Some test_hashpack) Map.empty"
  have n: "connectionInfo ?n = JNull" by (simp add: WalletManager_new_def)
  have c: "connectionInfo ?c \<noteq> JNull" by (simp add: connected_with_def test_record_def)
  have d: "adapter_disconnect (adapter ?h) ?v = (Inr (), removeItem STORAGE_KEY ?v)"
    by (simp add: connected_with_def HashConnectAdapter_def HashConnectAdapter_disconnect_def
          browser_def)
  have t: "adapter_requestTransaction (adapter ?c) [1, 2, 3] ?w = (Inr [1, 2, 3], ?w)"
    by (simp add: connected_with_def rejecting_adapter_def)
  from C10_requestTransaction[of ?n "[1, 2, 3]" ?w rejecting_adapter "()" ?w] n
  have 1: "WalletManager_requestTransaction [1, 2, 3] ?n ?w
          = (Inl (Error ''Wallet not connected''), ?n, ?w)"
    by blast
  from C10_requestTransaction[of ?c "[1, 2, 3]" ?w rejecting_adapter "()" ?w] c
  have 2: "WalletManager_requestTransaction [1, 2, 3] ?c ?w
            = (fst (adapter_requestTransaction (adapter ?c) [1, 2, 3] ?w),
               ?c\<lparr>invoked := invoked ?c @ [''requestTransaction'']\<rparr>,
               snd (adapter_requestTransaction (adapter ?c) [1, 2, 3] ?w))"
    by blast
  from C10_requestTransaction[of ?h "[1, 2, 3]" ?v rejecting_adapter "()" "removeItem STORAGE_KEY ?v"] d
  have 3: "connectionInfo (fst (snd (WalletManager_disconnect ?h ?v))) = JNull"
    by blast
  show ?thesis
    unfolding 1 2 t using 3 by (simp add: WalletManager_new_def connected_with_def)
qed

end
